theory Spec2Isabelle
  imports Complex_Main "HOL-Library.Monad_Syntax"
begin

section \<open>Primitive types\<close>

text \<open>
  \<^verbatim>\<open>scalar\<close> is a floating-point type in the source. The assembly kernels are modelled
  over the real numbers: the theorems below are statements about the exact arithmetic the
  kernels spell out, not about rounding. \<^verbatim>\<open>localIdx\<close> is \<^verbatim>\<open>uint32_t\<close> (the default of
  \<^verbatim>\<open>label.hpp\<close>); indices are natural numbers and the one addition on them that the kernels
  perform is written with its wrap-around modulo \<open>2 ^ 32\<close>.
\<close>

type_synonym scalar = real
type_synonym localIdx = nat

definition localIdxAdd :: "localIdx \<Rightarrow> localIdx \<Rightarrow> localIdx" where
  "localIdxAdd a b = (a + b) mod 2 ^ 32"

datatype Executor = SerialExecutor | CPUExecutor | GPUExecutor

section \<open>Views\<close>

text \<open>
  A \<^verbatim>\<open>View<T>\<close> is a pointer with a length. For the kernels a view is the list of the
  elements it spans. Indexing a view is unchecked in the source; an access outside the
  view is undefined behaviour and is the value \<open>None\<close> of the model.
\<close>

definition viewAt :: "'a list \<Rightarrow> nat \<Rightarrow> 'a option" where
  "viewAt xs i = (if i < length xs then Some (xs ! i) else None)"

definition viewModify :: "'a list \<Rightarrow> nat \<Rightarrow> ('a \<Rightarrow> 'a) \<Rightarrow> 'a list option" where
  "viewModify xs i f = (if i < length xs then Some (xs[i := f (xs ! i)]) else None)"

text \<open>
  Modelled from the spec: \<^verbatim>\<open>dsl::Coeff\<close> (its header is not part of the sources at hand) is
  "a per-cell scaling factor abstraction, uniform-scalar or per-cell array, indexable by
  cell id through one uniform access pattern regardless of representation".
\<close>

datatype Coeff = CoeffUniform scalar | CoeffPerCell "scalar list"

fun coeffAt :: "Coeff \<Rightarrow> nat \<Rightarrow> scalar option" where
  "coeffAt (CoeffUniform s) i = Some s"
| "coeffAt (CoeffPerCell xs) i = viewAt xs i"

section \<open>Loops\<close>

text \<open>
  \<^verbatim>\<open>for (localIdx i = lo; i < hi; i++) body\<close>, with a body that may hit undefined
  behaviour. The counter never wraps: it is incremented only while it is below \<open>hi\<close>.
\<close>

function forLoop :: "nat \<Rightarrow> nat \<Rightarrow> (nat \<Rightarrow> 's \<Rightarrow> 's option) \<Rightarrow> 's \<Rightarrow> 's option" where
  "forLoop i hi body s =
     (if i < hi then (case body i s of None \<Rightarrow> None | Some s' \<Rightarrow> forLoop (Suc i) hi body s')
      else Some s)"
  by pat_completeness auto
termination
  by (relation "measure (\<lambda>(i, hi, body, s). hi - i)") auto

declare forLoop.simps [simp del]

section \<open>Parallel dispatch\<close>

text \<open>
  A kernel passed to \<^verbatim>\<open>parallelFor\<close> reads its inputs and then touches the shared
  arrays through a short sequence of memory operations. Two kinds occur in the sources:
  \<^verbatim>\<open>Kokkos::atomic_add\<close> and \<^verbatim>\<open>Kokkos::atomic_sub\<close>, one indivisible read-modify-write
  each, and the plain compound assignments \<^verbatim>\<open>x[k] += e\<close>, \<^verbatim>\<open>x[k] -= e\<close>, \<^verbatim>\<open>x[k] *= e\<close>,
  each a read of the slot into a register of the running iteration (\<open>Load\<close>) followed by
  a write of the updated register (\<open>StoreAdd\<close>, \<open>StoreSub\<close>, \<open>StoreMul\<close>). The type
  \<open>'a\<close> is the type of slots, \<open>'m\<close> (below) the type of the shared memory.
\<close>

datatype 'a memop =
    AtomicAdd 'a scalar
  | AtomicSub 'a scalar
  | Load 'a
  | StoreAdd 'a scalar
  | StoreSub 'a scalar
  | StoreMul 'a scalar

text \<open>
  One memory operation of an iteration whose register holds \<open>r\<close>. \<open>peek\<close> reads a slot
  of the memory and \<open>poke\<close> writes one; both are \<open>None\<close> outside the memory.
\<close>

fun stepOp ::
  "('m \<Rightarrow> 'a \<Rightarrow> scalar option) \<Rightarrow> ('m \<Rightarrow> 'a \<Rightarrow> scalar \<Rightarrow> 'm option) \<Rightarrow> 'a memop \<Rightarrow> scalar
     \<Rightarrow> 'm \<Rightarrow> (scalar \<times> 'm) option" where
  "stepOp peek poke (AtomicAdd a x) r m =
     do { y \<leftarrow> peek m a; m' \<leftarrow> poke m a (y + x); Some (r, m') }"
| "stepOp peek poke (AtomicSub a x) r m =
     do { y \<leftarrow> peek m a; m' \<leftarrow> poke m a (y - x); Some (r, m') }"
| "stepOp peek poke (Load a) r m = do { y \<leftarrow> peek m a; Some (y, m) }"
| "stepOp peek poke (StoreAdd a x) r m = do { m' \<leftarrow> poke m a (r + x); Some (r, m') }"
| "stepOp peek poke (StoreSub a x) r m = do { m' \<leftarrow> poke m a (r - x); Some (r, m') }"
| "stepOp peek poke (StoreMul a x) r m = do { m' \<leftarrow> poke m a (r * x); Some (r, m') }"

text \<open>One iteration run from its first operation to its last with nothing in between.\<close>

fun runOps ::
  "('m \<Rightarrow> 'a \<Rightarrow> scalar option) \<Rightarrow> ('m \<Rightarrow> 'a \<Rightarrow> scalar \<Rightarrow> 'm option) \<Rightarrow> 'a memop list \<Rightarrow> scalar
     \<Rightarrow> 'm \<Rightarrow> 'm option" where
  "runOps peek poke [] r m = Some m"
| "runOps peek poke (x # xs) r m =
     (case stepOp peek poke x r m of
        None \<Rightarrow> None
      | Some (r', m') \<Rightarrow> runOps peek poke xs r' m')"

definition runKernel ::
  "('m \<Rightarrow> 'a \<Rightarrow> scalar option) \<Rightarrow> ('m \<Rightarrow> 'a \<Rightarrow> scalar \<Rightarrow> 'm option)
     \<Rightarrow> (nat \<Rightarrow> 'a memop list option) \<Rightarrow> nat \<Rightarrow> 'm \<Rightarrow> 'm option" where
  "runKernel peek poke kern i m =
     (case kern i of None \<Rightarrow> None | Some ops \<Rightarrow> runOps peek poke ops 0 m)"

text \<open>
  The iterations in flight: what each has left to do, and its register. A schedule is a
  list of choices; each choice selects one of the iterations that still have an operation
  to run (the choice is taken modulo their number, and an exhausted schedule keeps
  choosing the first), so every schedule runs every operation of every iteration exactly
  once, and every interleaving of the iterations is the run of some schedule.
\<close>

type_synonym 'a thread = "'a memop list \<times> scalar"

definition enabled :: "'a thread list \<Rightarrow> nat list" where
  "enabled ths = filter (\<lambda>t. fst (ths ! t) \<noteq> []) [0..<length ths]"

definition pendingOps :: "'a thread list \<Rightarrow> nat" where
  "pendingOps ths = sum_list (map (\<lambda>th. length (fst th)) ths)"

definition pick :: "nat list \<Rightarrow> nat list \<Rightarrow> nat" where
  "pick sched en = en ! ((case sched of [] \<Rightarrow> 0 | c # cs \<Rightarrow> c) mod length en)"

function runSchedule ::
  "('m \<Rightarrow> 'a \<Rightarrow> scalar option) \<Rightarrow> ('m \<Rightarrow> 'a \<Rightarrow> scalar \<Rightarrow> 'm option) \<Rightarrow> nat list
     \<Rightarrow> 'a thread list \<Rightarrow> 'm \<Rightarrow> 'm option" where
  "runSchedule peek poke sched ths m =
     (if enabled ths = [] then Some m
      else (case ths ! pick sched (enabled ths) of
              ([], r) \<Rightarrow> None
            | (x # xs, r) \<Rightarrow>
                (case stepOp peek poke x r m of
                   None \<Rightarrow> None
                 | Some (r', m') \<Rightarrow>
                     runSchedule peek poke (tl sched)
                       (ths[pick sched (enabled ths) := (xs, r')]) m')))"
  by pat_completeness auto

lemma pendingOps_step:
  assumes en: "enabled ths \<noteq> []"
    and th: "ths ! pick sched (enabled ths) = (x # xs, r)"
  shows "pendingOps (ths[pick sched (enabled ths) := (xs, r')]) < pendingOps ths"
proof -
  let ?t = "pick sched (enabled ths)"
  have "?t \<in> set (enabled ths)" using en by (simp add: pick_def)
  then have lt: "?t < length ths" by (simp add: enabled_def)
  have "length (fst (ths ! ?t)) \<in> set (map (\<lambda>th. length (fst th)) ths)"
    using lt by (metis length_map nth_map nth_mem)
  then have "length (fst (ths ! ?t)) \<le> (\<Sum>th\<leftarrow>ths. length (fst th))"
    by (rule member_le_sum_list) simp_all
  then have "pendingOps (ths[?t := (xs, r')]) + length (fst (ths ! ?t))
               = pendingOps ths + length xs"
    using lt unfolding pendingOps_def by (simp add: sum_list_update map_update)
  then show ?thesis using th by simp
qed

termination runSchedule
  by (relation "measure (\<lambda>(peek, poke, sched, ths, m). pendingOps ths)")
    (auto intro: pendingOps_step dest: sym)

declare runSchedule.simps [simp del]

text \<open>
  Modelled from the spec: \<^verbatim>\<open>parallelFor\<close> (\<^verbatim>\<open>NeoN/core/parallelAlgorithms.hpp\<close>, not part
  of the sources at hand) "executes an index-parametrized operation over a contiguous
  range using the semantics of the bound Executor": on the sequential executor it
  "iterate[s] indices in ascending order on the calling thread"; on the host-parallel and
  accelerator executors "iteration order ... is unspecified" and "shared write targets
  must use atomic add/subtract". The call is complete when every iteration is. A kernel
  whose input reads leave their views is undefined behaviour.
\<close>

definition parallelFor ::
  "('m \<Rightarrow> 'a \<Rightarrow> scalar option) \<Rightarrow> ('m \<Rightarrow> 'a \<Rightarrow> scalar \<Rightarrow> 'm option) \<Rightarrow> Executor \<Rightarrow> nat list
     \<Rightarrow> nat \<Rightarrow> nat \<Rightarrow> (nat \<Rightarrow> 'a memop list option) \<Rightarrow> 'm \<Rightarrow> 'm option" where
  "parallelFor peek poke exec sched lo hi kern m =
     (if exec = SerialExecutor then forLoop lo hi (runKernel peek poke kern) m
      else (case those (map kern [lo..<hi]) of
              None \<Rightarrow> None
            | Some opss \<Rightarrow> runSchedule peek poke sched (map (\<lambda>ops. (ops, 0)) opss) m))"

definition viewPoke :: "'a list \<Rightarrow> nat \<Rightarrow> 'a \<Rightarrow> 'a list option" where
  "viewPoke xs i x = (if i < length xs then Some (xs[i := x]) else None)"

section \<open>Explicit divergence: computeDiv, serial branch\<close>

definition sumFluxesInternalBody ::
  "localIdx list \<Rightarrow> localIdx list \<Rightarrow> scalar list \<Rightarrow> scalar list \<Rightarrow> nat \<Rightarrow> scalar list
     \<Rightarrow> scalar list option" where
  "sumFluxesInternalBody neighbour owner faceFlux phiF i res = do {
     ff \<leftarrow> viewAt faceFlux i;
     pf \<leftarrow> viewAt phiF i;
     own \<leftarrow> viewAt owner i;
     res1 \<leftarrow> viewModify res own (\<lambda>x. x + ff * pf);
     nei \<leftarrow> viewAt neighbour i;
     viewModify res1 nei (\<lambda>x. x - ff * pf)
   }"

definition sumFluxesBoundaryBody ::
  "localIdx \<Rightarrow> localIdx list \<Rightarrow> scalar list \<Rightarrow> scalar list \<Rightarrow> nat \<Rightarrow> scalar list
     \<Rightarrow> scalar list option" where
  "sumFluxesBoundaryBody nInternalFaces faceCells faceFlux phiF i res = do {
     own \<leftarrow> viewAt faceCells (i - nInternalFaces);
     ff \<leftarrow> viewAt faceFlux i;
     pf \<leftarrow> viewAt phiF i;
     viewModify res own (\<lambda>x. x + ff * pf)
   }"

definition normalizeFluxesBody ::
  "Coeff \<Rightarrow> scalar list \<Rightarrow> nat \<Rightarrow> scalar list \<Rightarrow> scalar list option" where
  "normalizeFluxesBody operatorScaling v celli res = do {
     sc \<leftarrow> coeffAt operatorScaling celli;
     vol \<leftarrow> viewAt v celli;
     viewModify res celli (\<lambda>x. x * (sc / vol))
   }"

definition computeDivSerial ::
  "localIdx \<Rightarrow> localIdx \<Rightarrow> localIdx list \<Rightarrow> localIdx list \<Rightarrow> localIdx list
     \<Rightarrow> scalar list \<Rightarrow> scalar list \<Rightarrow> scalar list \<Rightarrow> scalar list \<Rightarrow> Coeff
     \<Rightarrow> scalar list option" where
  "computeDivSerial nInternalFaces nBoundaryFaces neighbour owner faceCells faceFlux phiF v res
       operatorScaling = do {
     res1 \<leftarrow> forLoop 0 nInternalFaces
               (sumFluxesInternalBody neighbour owner faceFlux phiF) res;
     res2 \<leftarrow> forLoop nInternalFaces (localIdxAdd nInternalFaces nBoundaryFaces)
               (sumFluxesBoundaryBody nInternalFaces faceCells faceFlux phiF) res1;
     forLoop 0 (length v) (normalizeFluxesBody operatorScaling v) res2
   }"


section \<open>Explicit divergence: computeDiv, parallel branch\<close>

definition sumFluxesInternalOps ::
  "localIdx list \<Rightarrow> localIdx list \<Rightarrow> scalar list \<Rightarrow> scalar list \<Rightarrow> nat
     \<Rightarrow> nat memop list option" where
  "sumFluxesInternalOps neighbour owner faceFlux phiF i = do {
     ff \<leftarrow> viewAt faceFlux i;
     pf \<leftarrow> viewAt phiF i;
     own \<leftarrow> viewAt owner i;
     nei \<leftarrow> viewAt neighbour i;
     Some [AtomicAdd own (ff * pf), AtomicSub nei (ff * pf)]
   }"

definition sumFluxesBoundaryOps ::
  "localIdx \<Rightarrow> localIdx list \<Rightarrow> scalar list \<Rightarrow> scalar list \<Rightarrow> nat \<Rightarrow> nat memop list option" where
  "sumFluxesBoundaryOps nInternalFaces faceCells faceFlux phiF i = do {
     own \<leftarrow> viewAt faceCells (i - nInternalFaces);
     ff \<leftarrow> viewAt faceFlux i;
     pf \<leftarrow> viewAt phiF i;
     Some [AtomicAdd own (ff * pf)]
   }"

definition normalizeFluxesOps :: "Coeff \<Rightarrow> scalar list \<Rightarrow> nat \<Rightarrow> nat memop list option" where
  "normalizeFluxesOps operatorScaling v celli = do {
     sc \<leftarrow> coeffAt operatorScaling celli;
     vol \<leftarrow> viewAt v celli;
     Some [Load celli, StoreMul celli (sc / vol)]
   }"

text \<open>The three dispatches of the parallel branch take one schedule each.\<close>

definition computeDivParallel ::
  "Executor \<Rightarrow> nat list \<times> nat list \<times> nat list \<Rightarrow> localIdx \<Rightarrow> localIdx \<Rightarrow> localIdx list
     \<Rightarrow> localIdx list \<Rightarrow> localIdx list \<Rightarrow> scalar list \<Rightarrow> scalar list \<Rightarrow> scalar list
     \<Rightarrow> scalar list \<Rightarrow> Coeff \<Rightarrow> scalar list option" where
  "computeDivParallel exec scheds nInternalFaces nBoundaryFaces neighbour owner faceCells
       faceFlux phiF v res operatorScaling = do {
     res1 \<leftarrow> parallelFor viewAt viewPoke exec (fst scheds) 0 nInternalFaces
               (sumFluxesInternalOps neighbour owner faceFlux phiF) res;
     res2 \<leftarrow> parallelFor viewAt viewPoke exec (fst (snd scheds)) nInternalFaces
               (localIdxAdd nInternalFaces nBoundaryFaces)
               (sumFluxesBoundaryOps nInternalFaces faceCells faceFlux phiF) res1;
     parallelFor viewAt viewPoke exec (snd (snd scheds)) 0 (length v)
       (normalizeFluxesOps operatorScaling v) res2
   }"

section \<open>Explicit divergence: computeDiv\<close>

definition computeDiv ::
  "Executor \<Rightarrow> nat list \<times> nat list \<times> nat list \<Rightarrow> localIdx \<Rightarrow> localIdx \<Rightarrow> localIdx list
     \<Rightarrow> localIdx list \<Rightarrow> localIdx list \<Rightarrow> scalar list \<Rightarrow> scalar list \<Rightarrow> scalar list
     \<Rightarrow> scalar list \<Rightarrow> Coeff \<Rightarrow> scalar list option" where
  "computeDiv exec scheds nInternalFaces nBoundaryFaces neighbour owner faceCells faceFlux phiF
       v res operatorScaling =
     (if exec = SerialExecutor
      then computeDivSerial nInternalFaces nBoundaryFaces neighbour owner faceCells faceFlux
             phiF v res operatorScaling
      else computeDivParallel exec scheds nInternalFaces nBoundaryFaces neighbour owner
             faceCells faceFlux phiF v res operatorScaling)"

text \<open>
  Well-formed inputs of \<^verbatim>\<open>computeDiv\<close>: the face counts fit \<^verbatim>\<open>localIdx\<close>, every view
  covers the faces it is indexed with, every cell index stored in the connectivity is a
  cell of the mesh (\<^verbatim>\<open>nCells = v.size()\<close>), and no cell has volume zero (the quotient
  \<open>x / 0\<close> of HOL is not the one of the floating-point unit).
\<close>

definition divInputsOK ::
  "localIdx \<Rightarrow> localIdx \<Rightarrow> localIdx list \<Rightarrow> localIdx list \<Rightarrow> localIdx list
     \<Rightarrow> scalar list \<Rightarrow> scalar list \<Rightarrow> scalar list \<Rightarrow> bool" where
  "divInputsOK nInternalFaces nBoundaryFaces neighbour owner faceCells faceFlux phiF v \<longleftrightarrow>
     nInternalFaces + nBoundaryFaces < 2 ^ 32 \<and> length v < 2 ^ 32
     \<and> nInternalFaces \<le> length owner \<and> nInternalFaces \<le> length neighbour
     \<and> nBoundaryFaces \<le> length faceCells
     \<and> nInternalFaces + nBoundaryFaces \<le> length faceFlux
     \<and> nInternalFaces + nBoundaryFaces \<le> length phiF
     \<and> (\<forall>i<nInternalFaces. owner ! i < length v \<and> neighbour ! i < length v)
     \<and> (\<forall>j<nBoundaryFaces. faceCells ! j < length v)
     \<and> (\<forall>c<length v. v ! c \<noteq> 0)"

fun coeffCovers :: "Coeff \<Rightarrow> nat \<Rightarrow> bool" where
  "coeffCovers (CoeffUniform s) n = True"
| "coeffCovers (CoeffPerCell xs) n = (n \<le> length xs)"

fun coeffVal :: "Coeff \<Rightarrow> nat \<Rightarrow> scalar" where
  "coeffVal (CoeffUniform s) c = s"
| "coeffVal (CoeffPerCell xs) c = xs ! c"

text \<open>What one internal face and one boundary face add to the accumulator of cell \<open>c\<close>.\<close>

definition internalContribution ::
  "localIdx list \<Rightarrow> localIdx list \<Rightarrow> scalar list \<Rightarrow> scalar list \<Rightarrow> nat \<Rightarrow> nat \<Rightarrow> scalar" where
  "internalContribution neighbour owner faceFlux phiF c i =
     (if owner ! i = c then faceFlux ! i * phiF ! i else 0)
     - (if neighbour ! i = c then faceFlux ! i * phiF ! i else 0)"

definition boundaryContribution ::
  "localIdx \<Rightarrow> localIdx list \<Rightarrow> scalar list \<Rightarrow> scalar list \<Rightarrow> nat \<Rightarrow> nat \<Rightarrow> scalar" where
  "boundaryContribution nInternalFaces faceCells faceFlux phiF c j =
     (if faceCells ! j = c
      then faceFlux ! (nInternalFaces + j) * phiF ! (nInternalFaces + j) else 0)"

section \<open>Implicit divergence: computeDivImp\<close>

text \<open>
  The arguments of \<^verbatim>\<open>computeDivImp\<close>, reduced to the views the function takes of them.
  The matrix is in compressed-row storage: \<open>matrix_values\<close> is the flat value array
  (\<^verbatim>\<open>matrix.values\<close>) and \<open>matrix_rowOffs\<close> the start of every row in it. The value type
  is \<^verbatim>\<open>scalar\<close>, for which \<^verbatim>\<open>one<ValueType>()\<close> is \<open>1\<close>.
\<close>

record UnstructuredMesh =
  mesh_nInternalFaces :: localIdx
  mesh_faceOwner :: "localIdx list"
  mesh_faceNeighbour :: "localIdx list"
  mesh_faceCells :: "localIdx list"

record BoundaryData =
  bd_valueFraction :: "scalar list"
  bd_refValue :: "scalar list"

record VolumeField =
  vf_mesh :: UnstructuredMesh
  vf_exec :: Executor
  vf_boundaryData :: BoundaryData

record SparsityPattern =
  sp_diagOffset :: "nat list"
  sp_ownerOffset :: "nat list"
  sp_neighbourOffset :: "nat list"

record LinearSystem =
  matrix_values :: "scalar list"
  matrix_rowOffs :: "localIdx list"
  ls_rhs :: "scalar list"

datatype lsSlot = MatrixValue nat | RhsEntry nat

fun peekLS :: "LinearSystem \<Rightarrow> lsSlot \<Rightarrow> scalar option" where
  "peekLS ls (MatrixValue k) = viewAt (matrix_values ls) k"
| "peekLS ls (RhsEntry k) = viewAt (ls_rhs ls) k"

fun pokeLS :: "LinearSystem \<Rightarrow> lsSlot \<Rightarrow> scalar \<Rightarrow> LinearSystem option" where
  "pokeLS ls (MatrixValue k) x =
     map_option (\<lambda>vs. ls\<lparr>matrix_values := vs\<rparr>) (viewPoke (matrix_values ls) k x)"
| "pokeLS ls (RhsEntry k) x =
     map_option (\<lambda>vs. ls\<lparr>ls_rhs := vs\<rparr>) (viewPoke (ls_rhs ls) k x)"

text \<open>
  The kernel of the first dispatch, for internal face \<open>facei\<close>. The two off-diagonal
  slots are updated with a plain \<^verbatim>\<open>+=\<close>, the two diagonal slots with
  \<^verbatim>\<open>Kokkos::atomic_sub\<close>.
\<close>

definition divImpInternalOps ::
  "scalar list \<Rightarrow> localIdx list \<Rightarrow> localIdx list \<Rightarrow> localIdx list \<Rightarrow> Coeff
     \<Rightarrow> nat list \<Rightarrow> nat list \<Rightarrow> nat list \<Rightarrow> nat \<Rightarrow> lsSlot memop list option" where
  "divImpInternalOps sFaceFlux owner neighbour rowOffs operatorScaling diagOffs ownOffs neiOffs
       facei = do {
     flux \<leftarrow> viewAt sFaceFlux facei;
     let weight = (if flux \<ge> 0 then 1 else 0);
     own \<leftarrow> viewAt owner facei;
     nei \<leftarrow> viewAt neighbour facei;
     rowNeiStart \<leftarrow> viewAt rowOffs nei;
     rowOwnStart \<leftarrow> viewAt rowOffs own;
     operatorScalingNei \<leftarrow> coeffAt operatorScaling nei;
     operatorScalingOwn \<leftarrow> coeffAt operatorScaling own;
     let value1 = - weight * flux * 1;
     neiOff \<leftarrow> viewAt neiOffs facei;
     diagOwn \<leftarrow> viewAt diagOffs own;
     let value2 = flux * (1 - weight) * 1;
     ownOff \<leftarrow> viewAt ownOffs facei;
     diagNei \<leftarrow> viewAt diagOffs nei;
     Some [Load (MatrixValue (localIdxAdd rowNeiStart neiOff)),
           StoreAdd (MatrixValue (localIdxAdd rowNeiStart neiOff)) (value1 * operatorScalingNei),
           AtomicSub (MatrixValue (localIdxAdd rowOwnStart diagOwn)) (value1 * operatorScalingOwn),
           Load (MatrixValue (localIdxAdd rowOwnStart ownOff)),
           StoreAdd (MatrixValue (localIdxAdd rowOwnStart ownOff)) (value2 * operatorScalingOwn),
           AtomicSub (MatrixValue (localIdxAdd rowNeiStart diagNei)) (value2 * operatorScalingNei)]
   }"

text \<open>
  The kernel of the second dispatch, for the boundary face with face index \<open>facei\<close>:
  a plain \<^verbatim>\<open>+=\<close> on the diagonal slot of the owner and a plain \<^verbatim>\<open>-=\<close> on its
  right-hand side.
\<close>

definition divImpBoundaryOps ::
  "localIdx \<Rightarrow> scalar list \<Rightarrow> localIdx list \<Rightarrow> localIdx list \<Rightarrow> Coeff \<Rightarrow> nat list
     \<Rightarrow> scalar list \<Rightarrow> scalar list \<Rightarrow> nat \<Rightarrow> lsSlot memop list option" where
  "divImpBoundaryOps nInternalFaces sFaceFlux surfFaceCells rowOffs operatorScaling diagOffs
       valueFraction refValue facei = do {
     let bcfacei = facei - nInternalFaces;
     flux \<leftarrow> viewAt sFaceFlux facei;
     own \<leftarrow> viewAt surfFaceCells bcfacei;
     rowOwnStart \<leftarrow> viewAt rowOffs own;
     operatorScalingOwn \<leftarrow> coeffAt operatorScaling own;
     diagOwn \<leftarrow> viewAt diagOffs own;
     vf \<leftarrow> viewAt valueFraction bcfacei;
     rv \<leftarrow> viewAt refValue bcfacei;
     Some [Load (MatrixValue (localIdxAdd rowOwnStart diagOwn)),
           StoreAdd (MatrixValue (localIdxAdd rowOwnStart diagOwn))
             (flux * operatorScalingOwn * (1 - vf) * 1),
           Load (RhsEntry own),
           StoreSub (RhsEntry own) (flux * operatorScalingOwn * (vf * rv))]
   }"

definition computeDivImp ::
  "nat list \<times> nat list \<Rightarrow> LinearSystem \<Rightarrow> scalar list \<Rightarrow> VolumeField \<Rightarrow> Coeff
     \<Rightarrow> SparsityPattern \<Rightarrow> LinearSystem option" where
  "computeDivImp scheds ls faceFlux phi operatorScaling sparsityPattern =
     (let mesh = vf_mesh phi;
          nInternalFaces = mesh_nInternalFaces mesh;
          exec = vf_exec phi
      in do {
        ls1 \<leftarrow> parallelFor peekLS pokeLS exec (fst scheds) 0 nInternalFaces
                 (divImpInternalOps faceFlux (mesh_faceOwner mesh) (mesh_faceNeighbour mesh)
                    (matrix_rowOffs ls) operatorScaling (sp_diagOffset sparsityPattern)
                    (sp_ownerOffset sparsityPattern) (sp_neighbourOffset sparsityPattern)) ls;
        parallelFor peekLS pokeLS exec (snd scheds) nInternalFaces (length faceFlux mod 2 ^ 32)
          (divImpBoundaryOps nInternalFaces faceFlux (mesh_faceCells mesh) (matrix_rowOffs ls)
             operatorScaling (sp_diagOffset sparsityPattern)
             (bd_valueFraction (vf_boundaryData phi)) (bd_refValue (vf_boundaryData phi))) ls1
      })"

section \<open>Well-formed faces of computeDivImp\<close>


definition internalFaceOK ::
  "scalar list \<Rightarrow> localIdx list \<Rightarrow> localIdx list \<Rightarrow> Coeff \<Rightarrow> nat list \<Rightarrow> nat list \<Rightarrow> nat list
     \<Rightarrow> LinearSystem \<Rightarrow> nat \<Rightarrow> bool" where
  "internalFaceOK sFaceFlux owner neighbour operatorScaling diagOffs ownOffs neiOffs ls facei \<longleftrightarrow>
     facei < length sFaceFlux \<and> facei < length owner \<and> facei < length neighbour
     \<and> facei < length ownOffs \<and> facei < length neiOffs
     \<and> (let own = owner ! facei; nei = neighbour ! facei;
             rowOwnStart = matrix_rowOffs ls ! own; rowNeiStart = matrix_rowOffs ls ! nei in
          own < length (matrix_rowOffs ls) \<and> nei < length (matrix_rowOffs ls)
          \<and> own < length diagOffs \<and> nei < length diagOffs
          \<and> coeffCovers operatorScaling (Suc own) \<and> coeffCovers operatorScaling (Suc nei)
          \<and> rowNeiStart + neiOffs ! facei < length (matrix_values ls)
          \<and> rowOwnStart + diagOffs ! own < length (matrix_values ls)
          \<and> rowOwnStart + ownOffs ! facei < length (matrix_values ls)
          \<and> rowNeiStart + diagOffs ! nei < length (matrix_values ls)
          \<and> distinct [rowNeiStart + neiOffs ! facei, rowOwnStart + diagOffs ! own,
                       rowOwnStart + ownOffs ! facei, rowNeiStart + diagOffs ! nei]
          \<and> length (matrix_values ls) < 2 ^ 32)"

definition upwindWeight :: "scalar \<Rightarrow> scalar" where
  "upwindWeight flux = (if flux \<ge> 0 then 1 else 0)"

section \<open>The one-dimensional mesh\<close>

text \<open>
  Modelled from the spec: the one-dimensional mesh of \<open>N\<close> cells (its constructor
  \<^verbatim>\<open>create1DUniformMesh\<close> is not part of the sources at hand; the benchmark and the test
  only call it). The cells are numbered along the line, the internal face \<open>i\<close> lies
  between the cells \<open>i\<close> (its owner) and \<open>i + 1\<close> (its neighbour), and the two boundary
  faces, last in the face numbering, close the first and the last cell. \<open>computeDiv1D\<close>
  is \<^verbatim>\<open>computeDiv\<close> on this mesh with unit face value on every face, unit face flux on
  every internal face, the face fluxes \<open>bFirst\<close> and \<open>bLast\<close> on the two boundary faces,
  a zero accumulator and the uniform scaling \<open>s\<close>. Uniform unit face flux is
  \<open>bFirst = bLast = 1\<close>.
\<close>

definition mesh1D_owner :: "nat \<Rightarrow> localIdx list" where
  "mesh1D_owner N = [0..<N - 1]"

definition mesh1D_neighbour :: "nat \<Rightarrow> localIdx list" where
  "mesh1D_neighbour N = [1..<N]"

definition mesh1D_faceCells :: "nat \<Rightarrow> localIdx list" where
  "mesh1D_faceCells N = [0, N - 1]"

definition mesh1D_faceFlux :: "nat \<Rightarrow> scalar \<Rightarrow> scalar \<Rightarrow> scalar list" where
  "mesh1D_faceFlux N bFirst bLast = replicate (N - 1) 1 @ [bFirst, bLast]"

definition computeDiv1D ::
  "Executor \<Rightarrow> nat list \<times> nat list \<times> nat list \<Rightarrow> nat \<Rightarrow> scalar list \<Rightarrow> scalar \<Rightarrow> scalar
     \<Rightarrow> scalar \<Rightarrow> scalar list option" where
  "computeDiv1D exec scheds N v s bFirst bLast =
     computeDiv exec scheds (N - 1) 2 (mesh1D_neighbour N) (mesh1D_owner N) (mesh1D_faceCells N)
       (mesh1D_faceFlux N bFirst bLast) (replicate (Suc N) 1) v (replicate N 0) (CoeffUniform s)"

section \<open>What a schedule leaves to do\<close>




section \<open>A cell with two boundary faces\<close>

text \<open>
  The smallest mesh on which two boundary faces have the same cell: one cell, no internal
  face, two boundary faces (the single-cell mesh of the operator tests has more). Its
  matrix is the one diagonal entry.
\<close>

definition singleCellMesh :: UnstructuredMesh where
  "singleCellMesh =
     \<lparr>mesh_nInternalFaces = 0, mesh_faceOwner = [], mesh_faceNeighbour = [],
      mesh_faceCells = [0, 0]\<rparr>"

definition singleCellField :: "Executor \<Rightarrow> VolumeField" where
  "singleCellField exec =
     \<lparr>vf_mesh = singleCellMesh, vf_exec = exec,
      vf_boundaryData = \<lparr>bd_valueFraction = [1/2, 1/2], bd_refValue = [2, 2]\<rparr>\<rparr>"

definition singleCellPattern :: SparsityPattern where
  "singleCellPattern = \<lparr>sp_diagOffset = [0], sp_ownerOffset = [], sp_neighbourOffset = []\<rparr>"

definition emptySingleCellSystem :: LinearSystem where
  "emptySingleCellSystem = \<lparr>matrix_values = [0], matrix_rowOffs = [0, 1], ls_rhs = [0]\<rparr>"

section \<open>Errors\<close>

text \<open>
  What ends an operation of \<^verbatim>\<open>Vector\<close> before it returns: a failed assertion (the message
  is printed and the process exits), an allocation the executor cannot satisfy, and an
  access through a null pointer or outside an allocated block (undefined behaviour).
\<close>

datatype error = AssertionFailed string | AllocationFailure | InvalidAccess

type_synonym 'a result = "error + 'a"

definition bindR :: "'a result \<Rightarrow> ('a \<Rightarrow> 'b result) \<Rightarrow> 'b result" where
  "bindR m f = (case m of Inl e \<Rightarrow> Inl e | Inr x \<Rightarrow> f x)"

text \<open>
  \<^verbatim>\<open>NF_ASSERT\<close> and \<^verbatim>\<open>NF_DEBUG_ASSERT\<close> are macros of \<^verbatim>\<open>NeoN/core/error.hpp\<close>, which is
  not part of the sources at hand. \<^verbatim>\<open>NF_ASSERT\<close> reports a condition that is false.
  Whether the build compiles the debug assertions in is the parameter \<open>dbg\<close> of
  \<^verbatim>\<open>NF_DEBUG_ASSERT\<close>: with it the macro is \<^verbatim>\<open>NF_ASSERT\<close>, without it the macro is no
  code at all.
\<close>

definition NF_ASSERT :: "bool \<Rightarrow> string \<Rightarrow> unit result" where
  "NF_ASSERT condition message = (if condition then Inr () else Inl (AssertionFailed message))"

definition NF_DEBUG_ASSERT :: "bool \<Rightarrow> bool \<Rightarrow> string \<Rightarrow> unit result" where
  "NF_DEBUG_ASSERT dbg condition message = (if dbg then NF_ASSERT condition message else Inr ())"

section \<open>Memory\<close>

text \<open>
  The memory the executors hand out: address \<open>a\<close> is the \<open>a\<close>-th entry of the heap,
  \<open>Some\<close> of the elements of the block allocated there or \<open>None\<close>. The null pointer is
  the pointer \<open>None\<close>.
\<close>

type_synonym addr = nat
type_synonym heap = "scalar list option list"

definition heapAt :: "heap \<Rightarrow> addr \<Rightarrow> scalar list option" where
  "heapAt h a = (if a < length h then h ! a else None)"

definition heapPut :: "heap \<Rightarrow> addr \<Rightarrow> scalar list \<Rightarrow> heap" where
  "heapPut h a blk = h[a := Some blk]"

text \<open>
  The allocation functions of the executors (\<^verbatim>\<open>alloc\<close>, \<^verbatim>\<open>realloc\<close>; the executors'
  headers are not part of the sources at hand) are parameters of the model. A call returns
  \<open>None\<close> when the executor cannot satisfy the request, and the pointer with the new heap
  otherwise.
\<close>

record Allocator =
  alloc :: "Executor \<Rightarrow> nat \<Rightarrow> heap \<Rightarrow> (addr option \<times> heap) option"
  realloc :: "Executor \<Rightarrow> addr option \<Rightarrow> nat \<Rightarrow> heap \<Rightarrow> (addr option \<times> heap) option"

text \<open>\<^verbatim>\<open>sizeof(ValueType)\<close> for \<^verbatim>\<open>scalar\<close>, and \<^verbatim>\<open>static_cast<size_t>(size) * sizeof(ValueType)\<close>.\<close>

definition sizeofValue :: nat where
  "sizeofValue = 8"

definition allocBytes :: "localIdx \<Rightarrow> nat" where
  "allocBytes sz = (sz * sizeofValue) mod 2 ^ 64"

text \<open>
  What the model asks of an allocator. \<open>allocFresh\<close>: a pointer that \<^verbatim>\<open>alloc\<close> returns
  is null, for a request of zero bytes only and with the heap as it was, or the address of
  a block that was not allocated before, large enough for the bytes asked, and no other
  block changes. \<open>allocNullIffZero\<close>: \<^verbatim>\<open>alloc\<close> and \<^verbatim>\<open>realloc\<close>
  return the null pointer for a request of zero bytes and for no other request.
\<close>

definition allocFresh :: "Allocator \<Rightarrow> bool" where
  "allocFresh A \<longleftrightarrow>
     (\<forall>exec bytes h p h'. alloc A exec bytes h = Some (p, h') \<longrightarrow>
        (case p of
           None \<Rightarrow> bytes = 0 \<and> h' = h
         | Some a \<Rightarrow> heapAt h a = None
             \<and> (\<exists>blk. heapAt h' a = Some blk \<and> bytes \<le> length blk * sizeofValue)
             \<and> (\<forall>b. b \<noteq> a \<longrightarrow> heapAt h' b = heapAt h b)))"


text \<open>
  Modelled from the spec: an allocator as section 3 of the spec describes the executors
  (\<open>allocate(bytes) \<rightarrow> handle\<close>, \<open>reallocate(handle, bytes) \<rightarrow> handle\<close>), for the
  concrete runs below. It never fails, hands out the next unused address, gives the null
  handle for zero bytes, and moves a reallocated block.
\<close>

definition bumpAlloc :: "Executor \<Rightarrow> nat \<Rightarrow> heap \<Rightarrow> (addr option \<times> heap) option" where
  "bumpAlloc exec bytes h =
     (if bytes = 0 then Some (None, h)
      else Some (Some (length h), h @ [Some (replicate ((bytes + sizeofValue - 1) div sizeofValue) 0)]))"

definition bumpRealloc ::
  "Executor \<Rightarrow> addr option \<Rightarrow> nat \<Rightarrow> heap \<Rightarrow> (addr option \<times> heap) option" where
  "bumpRealloc exec q bytes h =
     (let old = (case q of None \<Rightarrow> [] | Some a \<Rightarrow> (case heapAt h a of None \<Rightarrow> [] | Some blk \<Rightarrow> blk));
          h1 = (case q of None \<Rightarrow> h | Some a \<Rightarrow> h[a := None]);
          n = (bytes + sizeofValue - 1) div sizeofValue
      in if bytes = 0 then Some (None, h1)
         else Some (Some (length h1), h1 @ [Some (take n old @ replicate (n - length old) 0)]))"

definition bumpAllocator :: Allocator where
  "bumpAllocator = \<lparr>alloc = bumpAlloc, realloc = bumpRealloc\<rparr>"

section \<open>Vector\<close>

text \<open>
  The three members of \<^verbatim>\<open>Vector<ValueType>\<close>, for \<^verbatim>\<open>ValueType = scalar\<close>: \<open>vsize\<close> is
  \<^verbatim>\<open>size_\<close>, \<open>vdata\<close> is \<^verbatim>\<open>data_\<close> and \<open>vexec\<close> is \<^verbatim>\<open>exec_\<close>.
\<close>

record Vector =
  vsize :: localIdx
  vdata :: "addr option"
  vexec :: Executor

text \<open>\<^verbatim>\<open>empty()\<close>.\<close>

definition empty' :: "Vector \<Rightarrow> bool" where
  "empty' v \<longleftrightarrow> vsize v = 0"

text \<open>
  \<^verbatim>\<open>detail::deepCopyVisitor\<close>: \<^verbatim>\<open>Kokkos::deep_copy\<close> of \<open>ssize\<close> elements from the block
  at \<open>srcPtr\<close> to the block at \<open>dstPtr\<close>. Nothing is read or written for \<open>ssize = 0\<close>.
\<close>

definition deepCopy :: "localIdx \<Rightarrow> addr option \<Rightarrow> addr option \<Rightarrow> heap \<Rightarrow> heap result" where
  "deepCopy ssize srcPtr dstPtr h =
     (if ssize = 0 then Inr h
      else (case (srcPtr, dstPtr) of
              (Some s, Some d) \<Rightarrow>
                (case (heapAt h s, heapAt h d) of
                   (Some sb, Some db) \<Rightarrow>
                     if ssize \<le> length sb \<and> ssize \<le> length db
                     then Inr (heapPut h d (take ssize sb @ drop ssize db))
                     else Inl InvalidAccess
                 | _ \<Rightarrow> Inl InvalidAccess)
            | _ \<Rightarrow> Inl InvalidAccess))"

text \<open>
  The elements a view of the whole vector (\<^verbatim>\<open>view()\<close>) spans, all of them read or all of
  them written, and one element written through the view.
\<close>

definition vectorElems :: "heap \<Rightarrow> Vector \<Rightarrow> scalar list result" where
  "vectorElems h v =
     (if vsize v = 0 then Inr []
      else (case vdata v of
              None \<Rightarrow> Inl InvalidAccess
            | Some a \<Rightarrow>
                (case heapAt h a of
                   None \<Rightarrow> Inl InvalidAccess
                 | Some blk \<Rightarrow>
                     if vsize v \<le> length blk then Inr (take (vsize v) blk)
                     else Inl InvalidAccess)))"

definition storeElems :: "Vector \<Rightarrow> scalar list \<Rightarrow> heap \<Rightarrow> heap result" where
  "storeElems v xs h =
     (if vsize v = 0 then Inr h
      else (case vdata v of
              None \<Rightarrow> Inl InvalidAccess
            | Some a \<Rightarrow>
                (case heapAt h a of
                   None \<Rightarrow> Inl InvalidAccess
                 | Some blk \<Rightarrow>
                     if vsize v \<le> length blk \<and> length xs = vsize v
                     then Inr (heapPut h a (xs @ drop (vsize v) blk))
                     else Inl InvalidAccess)))"

definition viewStore :: "Vector \<Rightarrow> nat \<Rightarrow> scalar \<Rightarrow> heap \<Rightarrow> heap result" where
  "viewStore v i x h =
     bindR (vectorElems h v)
       (\<lambda>xs. if i < vsize v then storeElems v (xs[i := x]) h else Inl InvalidAccess)"


definition fieldBinaryOp ::
  "(scalar \<Rightarrow> scalar \<Rightarrow> scalar) \<Rightarrow> Vector \<Rightarrow> Vector \<Rightarrow> heap \<Rightarrow> heap result" where
  "fieldBinaryOp f a b h =
     bindR (vectorElems h a)
       (\<lambda>xs. bindR (vectorElems h b)
          (\<lambda>ys. if vsize a \<le> vsize b then storeElems a (map2 f xs ys) h
                else Inl InvalidAccess))"

definition setVector :: "Vector \<Rightarrow> Vector \<Rightarrow> heap \<Rightarrow> heap result" where
  "setVector a b h = fieldBinaryOp (\<lambda>x y. y) a b h"

definition add :: "Vector \<Rightarrow> Vector \<Rightarrow> heap \<Rightarrow> heap result" where
  "add a b h = fieldBinaryOp (\<lambda>x y. x + y) a b h"

definition sub :: "Vector \<Rightarrow> Vector \<Rightarrow> heap \<Rightarrow> heap result" where
  "sub a b h = fieldBinaryOp (\<lambda>x y. x - y) a b h"

definition mul :: "Vector \<Rightarrow> Vector \<Rightarrow> heap \<Rightarrow> heap result" where
  "mul a b h = fieldBinaryOp (\<lambda>x y. x * y) a b h"

definition scalarMul :: "Vector \<Rightarrow> scalar \<Rightarrow> heap \<Rightarrow> heap result" where
  "scalarMul a s h = bindR (vectorElems h a) (\<lambda>xs. storeElems a (map (\<lambda>x. x * s) xs) h)"

subsection \<open>Constructors\<close>

text \<open>\<^verbatim>\<open>Vector(const Executor& exec, localIdx size)\<close>: uninitialized.\<close>

definition Vector_sized :: "Allocator \<Rightarrow> Executor \<Rightarrow> localIdx \<Rightarrow> heap \<Rightarrow> (Vector \<times> heap) result" where
  "Vector_sized A exec sz h =
     (case alloc A exec (allocBytes sz) h of
        None \<Rightarrow> Inl AllocationFailure
      | Some (ptr, h') \<Rightarrow> Inr (\<lparr>vsize = sz, vdata = ptr, vexec = exec\<rparr>, h'))"

text \<open>\<^verbatim>\<open>Vector(const Executor& exec, const ValueType* in, localIdx size, Executor hostExec)\<close>.\<close>

definition Vector_fromPtr ::
  "Allocator \<Rightarrow> Executor \<Rightarrow> addr option \<Rightarrow> localIdx \<Rightarrow> Executor \<Rightarrow> heap
     \<Rightarrow> (Vector \<times> heap) result" where
  "Vector_fromPtr A exec inp sz hostExec h =
     bindR (Vector_sized A exec sz h)
       (\<lambda>(this, h1). bindR (deepCopy (vsize this) inp (vdata this) h1)
          (\<lambda>h2. Inr (this, h2)))"


text \<open>The copy constructor \<^verbatim>\<open>Vector(const Vector<ValueType>& rhs)\<close>.\<close>

definition Vector_copy :: "Allocator \<Rightarrow> Vector \<Rightarrow> heap \<Rightarrow> (Vector \<times> heap) result" where
  "Vector_copy A rhs h = Vector_fromPtr A (vexec rhs) (vdata rhs) (vsize rhs) (vexec rhs) h"


subsection \<open>Member functions\<close>

definition copyToExecutor ::
  "Allocator \<Rightarrow> Vector \<Rightarrow> Executor \<Rightarrow> heap \<Rightarrow> (Vector \<times> heap) result" where
  "copyToExecutor A this dstExec h =
     (if dstExec = vexec this then Vector_copy A this h
      else bindR (Vector_sized A dstExec (vsize this) h)
             (\<lambda>(result, h1). bindR (deepCopy (vsize this) (vdata this) (vdata result) h1)
                (\<lambda>h2. Inr (result, h2))))"

definition resize :: "Allocator \<Rightarrow> Vector \<Rightarrow> localIdx \<Rightarrow> heap \<Rightarrow> (Vector \<times> heap) result" where
  "resize A this sz h =
     (case (if \<not> empty' this then realloc A (vexec this) (vdata this) (allocBytes sz) h
            else alloc A (vexec this) (allocBytes sz) h) of
        None \<Rightarrow> Inl AllocationFailure
      | Some (ptr, h') \<Rightarrow> Inr (this\<lparr>vdata := ptr, vsize := sz\<rparr>, h'))"


text \<open>\<^verbatim>\<open>void operator=(const Vector<ValueType>& rhs)\<close>.\<close>

definition assignVector ::
  "Allocator \<Rightarrow> Vector \<Rightarrow> Vector \<Rightarrow> heap \<Rightarrow> (Vector \<times> heap) result" where
  "assignVector A this rhs h =
     bindR (NF_ASSERT (vexec this = vexec rhs) ''Executors are not the same'')
       (\<lambda>_. bindR (if vsize this \<noteq> vsize rhs then resize A this (vsize rhs) h
                    else Inr (this, h))
          (\<lambda>(this1, h1). bindR (setVector this1 rhs h1) (\<lambda>h2. Inr (this1, h2))))"

definition validateOtherVector :: "bool \<Rightarrow> Vector \<Rightarrow> Vector \<Rightarrow> unit result" where
  "validateOtherVector dbg this rhs =
     bindR (NF_DEBUG_ASSERT dbg (vsize this = vsize rhs) ''Vectors are not the same size.'')
       (\<lambda>_. NF_DEBUG_ASSERT dbg (vexec this = vexec rhs) ''Executors are not the same.'')"

text \<open>\<^verbatim>\<open>operator+=\<close>, \<^verbatim>\<open>operator-=\<close> and \<^verbatim>\<open>operator*=\<close> by a vector.\<close>

definition plusAssign :: "bool \<Rightarrow> Vector \<Rightarrow> Vector \<Rightarrow> heap \<Rightarrow> heap result" where
  "plusAssign dbg this rhs h = bindR (validateOtherVector dbg this rhs) (\<lambda>_. add this rhs h)"

definition minusAssign :: "bool \<Rightarrow> Vector \<Rightarrow> Vector \<Rightarrow> heap \<Rightarrow> heap result" where
  "minusAssign dbg this rhs h = bindR (validateOtherVector dbg this rhs) (\<lambda>_. sub this rhs h)"

definition timesAssign :: "bool \<Rightarrow> Vector \<Rightarrow> Vector \<Rightarrow> heap \<Rightarrow> heap result" where
  "timesAssign dbg this rhs h = bindR (validateOtherVector dbg this rhs) (\<lambda>_. mul this rhs h)"

text \<open>\<^verbatim>\<open>operator*=\<close> by a scalar.\<close>

definition timesAssignScalar :: "Vector \<Rightarrow> scalar \<Rightarrow> heap \<Rightarrow> heap result" where
  "timesAssignScalar this s h = scalarMul this s h"

text \<open>The products \<^verbatim>\<open>operator*(const Vector<scalar>& rhs)\<close> and \<^verbatim>\<open>operator*(const scalar rhs)\<close>.\<close>

definition timesVector ::
  "Allocator \<Rightarrow> bool \<Rightarrow> Vector \<Rightarrow> Vector \<Rightarrow> heap \<Rightarrow> (Vector \<times> heap) result" where
  "timesVector A dbg this rhs h =
     bindR (validateOtherVector dbg this rhs)
       (\<lambda>_. bindR (Vector_sized A (vexec this) (vsize this) h)
          (\<lambda>(result, h1). bindR (assignVector A result this h1)
             (\<lambda>(result1, h2). bindR (mul result1 rhs h2) (\<lambda>h3. Inr (result1, h3)))))"

definition timesScalar ::
  "Allocator \<Rightarrow> Vector \<Rightarrow> scalar \<Rightarrow> heap \<Rightarrow> (Vector \<times> heap) result" where
  "timesScalar A this s h =
     bindR (Vector_sized A (vexec this) (vsize this) h)
       (\<lambda>(result, h1). bindR (assignVector A result this h1)
          (\<lambda>(result1, h2). bindR (scalarMul result1 s h2) (\<lambda>h3. Inr (result1, h3))))"

text \<open>
  A vector that owns what it claims: its size fits \<^verbatim>\<open>localIdx\<close> and, unless it is empty,
  its pointer is the address of an allocated block of at least \<open>vsize\<close> elements.
\<close>

definition vectorValid :: "heap \<Rightarrow> Vector \<Rightarrow> bool" where
  "vectorValid h v \<longleftrightarrow>
     vsize v < 2 ^ 32
     \<and> (vsize v = 0
        \<or> (case vdata v of
              None \<Rightarrow> False
            | Some a \<Rightarrow> (case heapAt h a of None \<Rightarrow> False | Some blk \<Rightarrow> vsize v \<le> length blk)))"


section \<open>Loops and sums\<close>

lemma forLoop_rule:
  assumes "I lo s"
    and step: "\<And>i t. lo \<le> i \<Longrightarrow> i < hi \<Longrightarrow> I i t \<Longrightarrow> \<exists>t'. body i t = Some t' \<and> I (Suc i) t'"
    and "lo \<le> hi"
  shows "\<exists>t. forLoop lo hi body s = Some t \<and> I hi t"
  using assms
proof (induction "hi - lo" arbitrary: lo s)
  case 0
  then show ?case by (simp add: forLoop.simps)
next
  case (Suc n)
  from Suc.hyps(2) have lt: "lo < hi" by simp
  from Suc.prems(2)[OF le_refl lt Suc.prems(1)] obtain t' where
    t': "body lo s = Some t'" "I (Suc lo) t'" by blast
  have "\<exists>t. forLoop (Suc lo) hi body t' = Some t \<and> I hi t"
  proof (rule Suc.hyps(1))
    show "n = hi - Suc lo" using Suc.hyps(2) by simp
    show "I (Suc lo) t'" by fact
    show "Suc lo \<le> hi" using lt by simp
    show "\<And>i t. Suc lo \<le> i \<Longrightarrow> i < hi \<Longrightarrow> I i t \<Longrightarrow> \<exists>t'. body i t = Some t' \<and> I (Suc i) t'"
      using Suc.prems(2) by simp
  qed
  then show ?case using t' lt by (subst forLoop.simps) simp
qed


lemma divInputsOK_I:
  assumes "nI + nB < 2 ^ 32" "length v < 2 ^ 32"
    and "nI \<le> length owner" "nI \<le> length neighbour" "nB \<le> length faceCells"
    and "nI + nB \<le> length faceFlux" "nI + nB \<le> length phiF"
    and "\<forall>x\<in>set (take nI owner). x < length v"
    and "\<forall>x\<in>set (take nI neighbour). x < length v"
    and "\<forall>x\<in>set (take nB faceCells). x < length v"
    and "0 \<notin> set v"
  shows "divInputsOK nI nB neighbour owner faceCells faceFlux phiF v"
proof -
  have "\<And>xs n i. i < n \<Longrightarrow> n \<le> length xs \<Longrightarrow> (xs::nat list) ! i \<in> set (take n xs)"
    by (metis length_take min.absorb2 nth_mem nth_take)
  moreover have "\<forall>c<length v. v ! c \<noteq> 0" using assms(11) by (metis nth_mem)
  ultimately show ?thesis using assms unfolding divInputsOK_def by blast
qed

lemma coeffAt_covers: "coeffCovers sc n \<Longrightarrow> c < n \<Longrightarrow> coeffAt sc c = Some (coeffVal sc c)"
  by (cases sc) (simp_all add: viewAt_def)

section \<open>The serial branch of computeDiv\<close>

lemma sumFluxesInternalBody_effect:
  assumes "i < length faceFlux" "i < length phiF" "i < length owner" "i < length neighbour"
    and "owner ! i < length res" "neighbour ! i < length res"
  shows "\<exists>t. sumFluxesInternalBody neighbour owner faceFlux phiF i res = Some t
           \<and> length t = length res
           \<and> (\<forall>c<length res.
                 t ! c = res ! c + internalContribution neighbour owner faceFlux phiF c i)"
  using assms
  by (simp add: sumFluxesInternalBody_def viewAt_def viewModify_def internalContribution_def
      nth_list_update)

lemma sumFluxesBoundaryBody_effect:
  assumes "nI \<le> i" "i < length faceFlux" "i < length phiF" "i - nI < length faceCells"
    and "faceCells ! (i - nI) < length res"
  shows "\<exists>t. sumFluxesBoundaryBody nI faceCells faceFlux phiF i res = Some t
           \<and> length t = length res
           \<and> (\<forall>c<length res.
                 t ! c = res ! c + boundaryContribution nI faceCells faceFlux phiF c (i - nI))"
  using assms
  by (simp add: sumFluxesBoundaryBody_def viewAt_def viewModify_def boundaryContribution_def
      nth_list_update)

lemma normalizeFluxesBody_effect:
  assumes "c < length v" "c < length res" "coeffCovers sc (length v)"
  shows "normalizeFluxesBody sc v c res = Some (res[c := res ! c * (coeffVal sc c / v ! c)])"
  using assms by (simp add: normalizeFluxesBody_def coeffAt_covers viewAt_def viewModify_def)

lemma internalLoop_effect:
  assumes "nI \<le> length faceFlux" "nI \<le> length phiF" "nI \<le> length owner"
    and "nI \<le> length neighbour"
    and "\<forall>i<nI. owner ! i < length res" "\<forall>i<nI. neighbour ! i < length res"
  shows "\<exists>t. forLoop 0 nI (sumFluxesInternalBody neighbour owner faceFlux phiF) res = Some t
           \<and> length t = length res
           \<and> (\<forall>c<length res.
                 t ! c = res ! c + (\<Sum>i<nI. internalContribution neighbour owner faceFlux phiF c i))"
proof -
  let ?I = "\<lambda>i t. length t = length res
           \<and> (\<forall>c<length res.
                 t ! c = res ! c + (\<Sum>k<i. internalContribution neighbour owner faceFlux phiF c k))"
  have "\<exists>t. forLoop 0 nI (sumFluxesInternalBody neighbour owner faceFlux phiF) res = Some t
          \<and> ?I nI t"
  proof (rule forLoop_rule)
    show "?I 0 res" by simp
    show "0 \<le> nI" by simp
    fix i t assume i: "i < nI" and inv: "?I i t"
    have "\<exists>t'. sumFluxesInternalBody neighbour owner faceFlux phiF i t = Some t'
           \<and> length t' = length t
           \<and> (\<forall>c<length t.
                 t' ! c = t ! c + internalContribution neighbour owner faceFlux phiF c i)"
      using assms i inv by (intro sumFluxesInternalBody_effect) auto
    then show "\<exists>t'. sumFluxesInternalBody neighbour owner faceFlux phiF i t = Some t'
                 \<and> ?I (Suc i) t'"
      using inv by (auto simp: algebra_simps)
  qed
  then show ?thesis by blast
qed

lemma boundaryLoop_effect:
  assumes "nI + nB \<le> length faceFlux" "nI + nB \<le> length phiF" "nB \<le> length faceCells"
    and "\<forall>j<nB. faceCells ! j < length res"
  shows "\<exists>t. forLoop nI (nI + nB) (sumFluxesBoundaryBody nI faceCells faceFlux phiF) res = Some t
           \<and> length t = length res
           \<and> (\<forall>c<length res.
                 t ! c = res ! c + (\<Sum>j<nB. boundaryContribution nI faceCells faceFlux phiF c j))"
proof -
  let ?I = "\<lambda>i t. length t = length res
           \<and> (\<forall>c<length res.
                 t ! c = res ! c
                   + (\<Sum>j<i - nI. boundaryContribution nI faceCells faceFlux phiF c j))"
  have "\<exists>t. forLoop nI (nI + nB) (sumFluxesBoundaryBody nI faceCells faceFlux phiF) res = Some t
          \<and> ?I (nI + nB) t"
  proof (rule forLoop_rule)
    show "?I nI res" by simp
    show "nI \<le> nI + nB" by simp
    fix i t assume lo: "nI \<le> i" and i: "i < nI + nB" and inv: "?I i t"
    have "\<exists>t'. sumFluxesBoundaryBody nI faceCells faceFlux phiF i t = Some t'
           \<and> length t' = length t
           \<and> (\<forall>c<length t.
                 t' ! c = t ! c + boundaryContribution nI faceCells faceFlux phiF c (i - nI))"
      using assms i lo inv by (intro sumFluxesBoundaryBody_effect) auto
    moreover have "Suc i - nI = Suc (i - nI)" using lo by simp
    ultimately show "\<exists>t'. sumFluxesBoundaryBody nI faceCells faceFlux phiF i t = Some t'
                       \<and> ?I (Suc i) t'"
      using inv by (auto simp: algebra_simps)
  qed
  then show ?thesis by simp
qed

lemma normalizeLoop_effect:
  assumes "length res = length v" "coeffCovers sc (length v)"
  shows "\<exists>t. forLoop 0 (length v) (normalizeFluxesBody sc v) res = Some t
           \<and> length t = length res
           \<and> (\<forall>c<length res. t ! c = res ! c * (coeffVal sc c / v ! c))"
proof -
  let ?I = "\<lambda>i t. length t = length res
           \<and> (\<forall>c<length res.
                 t ! c = (if c < i then res ! c * (coeffVal sc c / v ! c) else res ! c))"
  have "\<exists>t. forLoop 0 (length v) (normalizeFluxesBody sc v) res = Some t \<and> ?I (length v) t"
  proof (rule forLoop_rule)
    show "?I 0 res" by simp
    show "0 \<le> length v" by simp
    fix i t assume i: "i < length v" and inv: "?I i t"
    have "normalizeFluxesBody sc v i t = Some (t[i := t ! i * (coeffVal sc i / v ! i)])"
      using assms i inv by (intro normalizeFluxesBody_effect) auto
    then show "\<exists>t'. normalizeFluxesBody sc v i t = Some t' \<and> ?I (Suc i) t'"
      using inv i assms by (auto simp: nth_list_update less_Suc_eq)
  qed
  then show ?thesis using assms by simp
qed

lemma computeDivSerial_effect:
  assumes ok: "divInputsOK nI nB neighbour owner faceCells faceFlux phiF v"
    and len: "length res = length v"
    and sc: "coeffCovers sc (length v)"
  shows "\<exists>r. computeDivSerial nI nB neighbour owner faceCells faceFlux phiF v res sc = Some r
           \<and> length r = length v
           \<and> (\<forall>c<length v. r ! c =
                 (res ! c + (\<Sum>i<nI. internalContribution neighbour owner faceFlux phiF c i)
                   + (\<Sum>j<nB. boundaryContribution nI faceCells faceFlux phiF c j))
                 * (coeffVal sc c / v ! c))"
proof -
  from ok have wrap: "localIdxAdd nI nB = nI + nB"
    by (simp add: divInputsOK_def localIdxAdd_def)
  from ok len obtain r1 where r1:
    "forLoop 0 nI (sumFluxesInternalBody neighbour owner faceFlux phiF) res = Some r1"
    "length r1 = length res"
    "\<forall>c<length res.
       r1 ! c = res ! c + (\<Sum>i<nI. internalContribution neighbour owner faceFlux phiF c i)"
    using internalLoop_effect[of nI faceFlux phiF owner neighbour res]
    by (auto simp: divInputsOK_def)
  from ok len r1(2) obtain r2 where r2:
    "forLoop nI (nI + nB) (sumFluxesBoundaryBody nI faceCells faceFlux phiF) r1 = Some r2"
    "length r2 = length r1"
    "\<forall>c<length r1.
       r2 ! c = r1 ! c + (\<Sum>j<nB. boundaryContribution nI faceCells faceFlux phiF c j)"
    using boundaryLoop_effect[of nI nB faceFlux phiF faceCells r1]
    by (auto simp: divInputsOK_def)
  from sc len r1(2) r2(2) obtain r3 where r3:
    "forLoop 0 (length v) (normalizeFluxesBody sc v) r2 = Some r3"
    "length r3 = length r2"
    "\<forall>c<length r2. r3 ! c = r2 ! c * (coeffVal sc c / v ! c)"
    using normalizeLoop_effect[of r2 v sc] by auto
  have "computeDivSerial nI nB neighbour owner faceCells faceFlux phiF v res sc = Some r3"
    by (simp add: computeDivSerial_def wrap r1(1) r2(1) r3(1))
  moreover have "length r3 = length v" using r3(2) r2(2) r1(2) len by simp
  moreover have "\<forall>c<length v. r3 ! c =
                 (res ! c + (\<Sum>i<nI. internalContribution neighbour owner faceFlux phiF c i)
                   + (\<Sum>j<nB. boundaryContribution nI faceCells faceFlux phiF c j))
                 * (coeffVal sc c / v ! c)"
    using r3(3) r2(2,3) r1(2,3) len by simp
  ultimately show ?thesis by blast
qed

section \<open>The kernels of computeDivImp\<close>

lemma runOps_plainAdd_matrix:
  assumes "k < length (matrix_values ls)"
  shows "runOps peekLS pokeLS (Load (MatrixValue k) # StoreAdd (MatrixValue k) x # ops) r ls =
           runOps peekLS pokeLS ops (matrix_values ls ! k)
             (ls\<lparr>matrix_values := (matrix_values ls)[k := matrix_values ls ! k + x]\<rparr>)"
  using assms by (simp add: viewAt_def viewPoke_def)

lemma runOps_atomicSub_matrix:
  assumes "k < length (matrix_values ls)"
  shows "runOps peekLS pokeLS (AtomicSub (MatrixValue k) x # ops) r ls =
           runOps peekLS pokeLS ops r
             (ls\<lparr>matrix_values := (matrix_values ls)[k := matrix_values ls ! k - x]\<rparr>)"
  using assms by (simp add: viewAt_def viewPoke_def)



lemma divImp_internal_effect:
  assumes ok: "internalFaceOK sFaceFlux owner neighbour sc diagOffs ownOffs neiOffs ls facei"
    and own: "own = owner ! facei" and nei: "nei = neighbour ! facei"
    and a1: "nOff = matrix_rowOffs ls ! nei + neiOffs ! facei"
    and a2: "oDiag = matrix_rowOffs ls ! own + diagOffs ! own"
    and a3: "oOff = matrix_rowOffs ls ! own + ownOffs ! facei"
    and a4: "nDiag = matrix_rowOffs ls ! nei + diagOffs ! nei"
    and v1: "v1 = - upwindWeight (sFaceFlux ! facei) * sFaceFlux ! facei"
    and v2: "v2 = (1 - upwindWeight (sFaceFlux ! facei)) * sFaceFlux ! facei"
  shows "runKernel peekLS pokeLS
           (divImpInternalOps sFaceFlux owner neighbour (matrix_rowOffs ls) sc diagOffs ownOffs
              neiOffs) facei ls =
         Some (ls\<lparr>matrix_values := (matrix_values ls)
                  [nOff := matrix_values ls ! nOff + v1 * coeffVal sc nei,
                   oDiag := matrix_values ls ! oDiag - v1 * coeffVal sc own,
                   oOff := matrix_values ls ! oOff + v2 * coeffVal sc own,
                   nDiag := matrix_values ls ! nDiag - v2 * coeffVal sc nei]\<rparr>)"
proof -
  from ok own nei have sc: "coeffAt sc own = Some (coeffVal sc own)"
      "coeffAt sc nei = Some (coeffVal sc nei)"
    by (auto simp: internalFaceOK_def Let_def intro: coeffAt_covers)
  from ok own nei a1 a2 a3 a4 have lt: "nOff < length (matrix_values ls)"
      "oDiag < length (matrix_values ls)" "oOff < length (matrix_values ls)"
      "nDiag < length (matrix_values ls)" and len: "length (matrix_values ls) < 2 ^ 32"
    and dist: "nOff \<noteq> oDiag" "nOff \<noteq> oOff" "nOff \<noteq> nDiag" "oDiag \<noteq> oOff" "oDiag \<noteq> nDiag"
      "oOff \<noteq> nDiag"
    by (simp_all add: internalFaceOK_def Let_def)
  from lt len a1 a2 a3 a4 have wrap:
    "localIdxAdd (matrix_rowOffs ls ! nei) (neiOffs ! facei) = nOff"
    "localIdxAdd (matrix_rowOffs ls ! own) (diagOffs ! own) = oDiag"
    "localIdxAdd (matrix_rowOffs ls ! own) (ownOffs ! facei) = oOff"
    "localIdxAdd (matrix_rowOffs ls ! nei) (diagOffs ! nei) = nDiag"
    by (simp_all add: localIdxAdd_def)
  from ok own nei have rd: "viewAt sFaceFlux facei = Some (sFaceFlux ! facei)"
    "viewAt owner facei = Some own" "viewAt neighbour facei = Some nei"
    "viewAt (matrix_rowOffs ls) nei = Some (matrix_rowOffs ls ! nei)"
    "viewAt (matrix_rowOffs ls) own = Some (matrix_rowOffs ls ! own)"
    "viewAt neiOffs facei = Some (neiOffs ! facei)"
    "viewAt ownOffs facei = Some (ownOffs ! facei)"
    "viewAt diagOffs own = Some (diagOffs ! own)"
    "viewAt diagOffs nei = Some (diagOffs ! nei)"
    by (simp_all add: internalFaceOK_def Let_def viewAt_def)
  have ops: "divImpInternalOps sFaceFlux owner neighbour (matrix_rowOffs ls) sc diagOffs ownOffs
              neiOffs facei =
        Some [Load (MatrixValue nOff), StoreAdd (MatrixValue nOff) (v1 * coeffVal sc nei),
              AtomicSub (MatrixValue oDiag) (v1 * coeffVal sc own),
              Load (MatrixValue oOff), StoreAdd (MatrixValue oOff) (v2 * coeffVal sc own),
              AtomicSub (MatrixValue nDiag) (v2 * coeffVal sc nei)]"
    by (simp add: divImpInternalOps_def rd sc wrap v1 v2 upwindWeight_def Let_def)
  show ?thesis
    unfolding runKernel_def ops using lt dist
    by (simp add: runOps_plainAdd_matrix runOps_atomicSub_matrix del: runOps.simps(2))
qed

section \<open>computeDiv on the one-dimensional mesh\<close>

lemma mesh1D_inputsOK:
  assumes "0 < N" "N < 2 ^ 31" "length v = N" "0 \<notin> set v"
  shows "divInputsOK (N - 1) 2 (mesh1D_neighbour N) (mesh1D_owner N) (mesh1D_faceCells N)
           (mesh1D_faceFlux N bFirst bLast) (replicate (Suc N) 1) v"
proof (rule divInputsOK_I)
  show "N - 1 + 2 < 2 ^ 32" using assms(2) by simp
  show "length v < 2 ^ 32" using assms(2,3) by simp
qed (use assms in \<open>auto simp: mesh1D_owner_def mesh1D_neighbour_def mesh1D_faceCells_def
       mesh1D_faceFlux_def dest: in_set_takeD\<close>)

lemma mesh1D_internal_sum:
  assumes "c < N"
  shows "(\<Sum>i<N - 1. internalContribution (mesh1D_neighbour N) (mesh1D_owner N)
             (mesh1D_faceFlux N bFirst bLast) (replicate (Suc N) 1) c i)
         = (if c < N - 1 then 1 else 0) - (if 0 < c then 1 else 0)"
proof -
  have "(\<Sum>i<N - 1. internalContribution (mesh1D_neighbour N) (mesh1D_owner N)
             (mesh1D_faceFlux N bFirst bLast) (replicate (Suc N) 1) c i)
        = (\<Sum>i<N - 1. (if i = c then 1 else 0) - (if Suc i = c then 1 else (0::real)))"
    by (rule sum.cong)
      (auto simp: internalContribution_def mesh1D_owner_def mesh1D_neighbour_def
            mesh1D_faceFlux_def nth_append simp del: replicate_Suc)
  also have "\<dots> = (\<Sum>i<N - 1. if i = c then 1 else 0)
                  - (\<Sum>i<N - 1. if i = c - 1 \<and> 0 < c then 1 else (0::real))"
    unfolding sum_subtractf[symmetric] by (rule sum.cong) auto
  also have "(\<Sum>i<N - 1. if i = c then 1 else (0::real)) = (if c < N - 1 then 1 else 0)"
    by (simp add: sum.delta)
  also have "(\<Sum>i<N - 1. if i = c - 1 \<and> 0 < c then 1 else (0::real)) = (if 0 < c then 1 else 0)"
  proof (cases "0 < c")
    case True
    then have "c - 1 < N - 1" using assms by simp
    with True show ?thesis by (simp add: sum.delta)
  qed simp
  finally show ?thesis .
qed

lemma mesh1D_boundary_sum:
  "0 < N \<Longrightarrow> (\<Sum>j<2. boundaryContribution (N - 1) (mesh1D_faceCells N)
             (mesh1D_faceFlux N bFirst bLast) (replicate (Suc N) 1) c j)
         = (if c = 0 then bFirst else 0) + (if c = N - 1 then bLast else 0)"
  by (auto simp: boundaryContribution_def mesh1D_faceCells_def mesh1D_faceFlux_def nth_append
           lessThan_nat_numeral lessThan_Suc simp del: replicate_Suc)

lemma computeDiv1D_effect:
  assumes "0 < N" "N < 2 ^ 31" "length v = N" "0 \<notin> set v"
  shows "\<exists>r. computeDiv1D SerialExecutor scheds N v s bFirst bLast = Some r \<and> length r = N
           \<and> (\<forall>c<N. r ! c = ((if c < N - 1 then 1 else 0) - (if 0 < c then 1 else 0)
                               + (if c = 0 then bFirst else 0)
                               + (if c = N - 1 then bLast else 0))
                              * (s / v ! c))"
proof -
  have sc: "coeffCovers (CoeffUniform s) (length v)" by simp
  have len: "length (replicate N (0::real)) = length v" using assms(3) by simp
  from computeDivSerial_effect[OF mesh1D_inputsOK[OF assms] len sc] obtain r where
    r: "computeDivSerial (N - 1) 2 (mesh1D_neighbour N) (mesh1D_owner N) (mesh1D_faceCells N)
          (mesh1D_faceFlux N bFirst bLast) (replicate (Suc N) 1) v (replicate N 0)
          (CoeffUniform s) = Some r"
       "length r = length v"
       "\<forall>c<length v. r ! c =
          (replicate N 0 ! c
           + (\<Sum>i<N - 1. internalContribution (mesh1D_neighbour N) (mesh1D_owner N)
                (mesh1D_faceFlux N bFirst bLast) (replicate (Suc N) 1) c i)
           + (\<Sum>j<2. boundaryContribution (N - 1) (mesh1D_faceCells N)
                (mesh1D_faceFlux N bFirst bLast) (replicate (Suc N) 1) c j))
          * (coeffVal (CoeffUniform s) c / v ! c)"
    by blast
  have "r ! c = ((if c < N - 1 then 1 else 0) - (if 0 < c then 1 else 0)
                  + (if c = 0 then bFirst else 0) + (if c = N - 1 then bLast else 0))
                * (s / v ! c)"
    if c: "c < N" for c
  proof -
    have "r ! c = (replicate N 0 ! c
           + (\<Sum>i<N - 1. internalContribution (mesh1D_neighbour N) (mesh1D_owner N)
                (mesh1D_faceFlux N bFirst bLast) (replicate (Suc N) 1) c i)
           + (\<Sum>j<2. boundaryContribution (N - 1) (mesh1D_faceCells N)
                (mesh1D_faceFlux N bFirst bLast) (replicate (Suc N) 1) c j))
          * (coeffVal (CoeffUniform s) c / v ! c)"
      using r(3) c assms(3) by blast
    then show ?thesis
      unfolding mesh1D_internal_sum[OF c] mesh1D_boundary_sum[OF assms(1)] using c by simp
  qed
  then show ?thesis using r(1,2) assms(3) by (simp add: computeDiv1D_def computeDiv_def)
qed

lemma mesh1D_3:
  "mesh1D_owner 3 = [0, 1]" "mesh1D_neighbour 3 = [1, 2]" "mesh1D_faceCells 3 = [0, 2]"
  "mesh1D_faceFlux 3 bFirst bLast = [1, 1, bFirst, bLast]"
  "replicate 3 (0::real) = [0, 0, 0]" "replicate (Suc 3) (1::real) = [1, 1, 1, 1]"
  by (simp_all add: mesh1D_owner_def mesh1D_neighbour_def mesh1D_faceCells_def
      mesh1D_faceFlux_def upt_conv_Cons numeral_3_eq_3 numeral_2_eq_2)

section \<open>Schedules of atomic updates\<close>









section \<open>Schedules of the normalisation kernel\<close>


section \<open>The parallel branch of computeDiv\<close>






lemma upt_0_2: "[0..<2] = [0, 1]"
  by (simp add: upt_conv_Cons)

section \<open>Results and sizes\<close>


lemma bindR_Inr [simp]: "bindR (Inr x) f = f x"
  by (simp add: bindR_def)

lemma bindR_Inl [simp]: "bindR (Inl e) f = Inl e"
  by (simp add: bindR_def)

lemma allocBytes_eq: "sz < 2 ^ 32 \<Longrightarrow> allocBytes sz = sz * sizeofValue"
proof -
  assume "sz < 2 ^ 32"
  then have "sz * 8 < 2 ^ 32 * 8" by simp
  also have "(2::nat) ^ 32 * 8 < 2 ^ 64" by simp
  finally show ?thesis by (simp add: allocBytes_def sizeofValue_def)
qed

lemma allocBytes_zero_iff: "sz < 2 ^ 32 \<Longrightarrow> allocBytes sz = 0 \<longleftrightarrow> sz = 0"
  by (simp add: allocBytes_eq sizeofValue_def)

section \<open>The null-iff-empty invariant\<close>

lemma Vector_sized_Inr:
  assumes "Vector_sized A exec sz h = Inr (v, h')"
  shows "\<exists>p. alloc A exec (allocBytes sz) h = Some (p, h')
           \<and> v = \<lparr>vsize = sz, vdata = p, vexec = exec\<rparr>"
  using assms by (auto simp: Vector_sized_def split: option.splits)







section \<open>Validation of the second operand\<close>

lemma validateOtherVector_debug:
  "validateOtherVector True a b =
     (if vsize a \<noteq> vsize b then Inl (AssertionFailed ''Vectors are not the same size.'')
      else if vexec a \<noteq> vexec b then Inl (AssertionFailed ''Executors are not the same.'')
      else Inr ())"
  by (simp add: validateOtherVector_def NF_DEBUG_ASSERT_def NF_ASSERT_def)

lemma validateOtherVector_release: "validateOtherVector False a b = Inr ()"
  by (simp add: validateOtherVector_def NF_DEBUG_ASSERT_def)

section \<open>Blocks and views\<close>

lemma heapAt_heapPut:
  "heapAt (heapPut h a blk) b = (if b = a \<and> a < length h then Some blk else heapAt h b)"
  by (auto simp: heapAt_def heapPut_def)

lemma heapAt_Some_lt: "heapAt h a = Some blk \<Longrightarrow> a < length h"
  by (simp add: heapAt_def split: if_splits)

lemma vectorElems_empty: "vsize v = 0 \<Longrightarrow> vectorElems h v = Inr []"
  by (simp add: vectorElems_def)

lemma vectorElems_block:
  assumes "vdata v = Some a" "heapAt h a = Some blk" "vsize v \<le> length blk"
  shows "vectorElems h v = Inr (take (vsize v) blk)"
  using assms by (simp add: vectorElems_def)

lemma vectorValid_cases:
  assumes "vectorValid h v"
  obtains (empty) "vsize v = 0"
  | (block) a blk where "vsize v \<noteq> 0" "vdata v = Some a" "heapAt h a = Some blk"
      "vsize v \<le> length blk"
  using assms by (auto simp: vectorValid_def split: option.splits)

lemma vectorElems_valid:
  assumes "vectorValid h v"
  shows "\<exists>xs. vectorElems h v = Inr xs \<and> length xs = vsize v"
  using assms by (cases rule: vectorValid_cases) (auto simp: vectorElems_def)

lemma vectorElems_frame:
  assumes "vectorValid h w" "\<And>b. vsize w \<noteq> 0 \<Longrightarrow> vdata w = Some b \<Longrightarrow> heapAt h' b = heapAt h b"
  shows "vectorElems h' w = vectorElems h w"
  using assms(1)
proof (cases rule: vectorValid_cases)
  case empty
  then show ?thesis by (simp add: vectorElems_def)
next
  case (block a blk)
  with assms(2)[OF block(1,2)] show ?thesis by (simp add: vectorElems_def)
qed

lemma vectorValid_frame:
  assumes "vectorValid h w" "\<And>b. vsize w \<noteq> 0 \<Longrightarrow> vdata w = Some b \<Longrightarrow> heapAt h' b = heapAt h b"
  shows "vectorValid h' w"
  using assms(1)
proof (cases rule: vectorValid_cases)
  case empty
  then show ?thesis using assms(1) by (simp add: vectorValid_def)
next
  case (block a blk)
  with assms(2)[OF block(1,2)] assms(1) show ?thesis by (simp add: vectorValid_def)
qed

lemma storeElems_empty: "vsize v = 0 \<Longrightarrow> storeElems v xs h = Inr h"
  by (simp add: storeElems_def)

lemma storeElems_block:
  assumes "vsize v \<noteq> 0" "vdata v = Some a" "heapAt h a = Some blk" "vsize v \<le> length blk"
    and "length xs = vsize v"
  shows "storeElems v xs h = Inr (heapPut h a (xs @ drop (vsize v) blk))"
  using assms by (simp add: storeElems_def)

text \<open>Writing all elements of a valid vector: what is written is read back, and no other block changes.\<close>

lemma storeElems_valid:
  assumes "vectorValid h v" "length xs = vsize v"
  shows "\<exists>h'. storeElems v xs h = Inr h' \<and> vectorElems h' v = Inr xs \<and> vectorValid h' v
           \<and> (\<forall>b. vdata v \<noteq> Some b \<longrightarrow> heapAt h' b = heapAt h b)
           \<and> (vsize v = 0 \<longrightarrow> h' = h)
           \<and> (\<forall>b. heapAt h' b = None \<longleftrightarrow> heapAt h b = None)"
  using assms(1)
proof (cases rule: vectorValid_cases)
  case empty
  then show ?thesis using assms by (simp add: storeElems_def vectorElems_def)
next
  case (block a blk)
  let ?h = "heapPut h a (xs @ drop (vsize v) blk)"
  have a: "a < length h" using block(3) by (rule heapAt_Some_lt)
  have st: "storeElems v xs h = Inr ?h" using block assms(2) by (rule storeElems_block)
  have at: "heapAt ?h a = Some (xs @ drop (vsize v) blk)" using a by (simp add: heapAt_heapPut)
  have rd: "vectorElems ?h v = Inr xs"
    using block(1,2,4) at assms(2) by (simp add: vectorElems_def)
  have val: "vectorValid ?h v"
    using assms(1) block at assms(2) by (simp add: vectorValid_def)
  have fr: "\<forall>b. vdata v \<noteq> Some b \<longrightarrow> heapAt ?h b = heapAt h b"
    using block(2) by (auto simp: heapAt_heapPut)
  have al: "\<forall>b. heapAt ?h b = None \<longleftrightarrow> heapAt h b = None"
    using block(3) by (auto simp: heapAt_heapPut)
  show ?thesis using st rd val fr al block(1) by simp
qed

lemma deepCopy_empty: "deepCopy 0 s d h = Inr h"
  by (simp add: deepCopy_def)

lemma deepCopy_block:
  assumes "n \<noteq> 0" "heapAt h s = Some sb" "heapAt h d = Some db" "n \<le> length sb" "n \<le> length db"
  shows "deepCopy n (Some s) (Some d) h = Inr (heapPut h d (take n sb @ drop n db))"
  using assms by (simp add: deepCopy_def)

text \<open>A successful allocation for a vector of \<open>sz\<close> elements.\<close>

lemma Vector_sized_fresh:
  assumes fresh: "allocFresh A" and sz: "sz < 2 ^ 32"
    and ok: "Vector_sized A exec sz h = Inr (r, h1)"
  shows "vsize r = sz \<and> vexec r = exec \<and> vectorValid h1 r
       \<and> (\<forall>b. heapAt h b \<noteq> None \<longrightarrow> heapAt h1 b = heapAt h b)
       \<and> (\<forall>a. vdata r = Some a \<longrightarrow> heapAt h a = None)"
proof -
  from Vector_sized_Inr[OF ok] obtain p where
    p: "alloc A exec (allocBytes sz) h = Some (p, h1)"
       "r = \<lparr>vsize = sz, vdata = p, vexec = exec\<rparr>" by blast
  show ?thesis
  proof (cases p)
    case None
    with fresh p(1) have "allocBytes sz = 0" "h1 = h"
      unfolding allocFresh_def by fastforce+
    then show ?thesis using p(2) None sz by (simp add: vectorValid_def allocBytes_zero_iff)
  next
    case (Some a)
    with fresh p(1) obtain blk where
      a: "heapAt h a = None" "heapAt h1 a = Some blk" "allocBytes sz \<le> length blk * sizeofValue"
         "\<forall>b. b \<noteq> a \<longrightarrow> heapAt h1 b = heapAt h b"
      unfolding allocFresh_def by fastforce
    from a(3) sz have "sz \<le> length blk" by (simp add: allocBytes_eq sizeofValue_def)
    then have "vectorValid h1 r" using p(2) Some a(2) sz by (simp add: vectorValid_def)
    moreover have "\<forall>b. heapAt h b \<noteq> None \<longrightarrow> heapAt h1 b = heapAt h b" using a(1,4) by metis
    ultimately show ?thesis using p(2) Some a(1) by simp
  qed
qed

section \<open>Fresh results\<close>

lemma Vector_sized_cases:
  "Vector_sized A exec sz h = Inl AllocationFailure \<or> (\<exists>r h1. Vector_sized A exec sz h = Inr (r, h1))"
  by (auto simp: Vector_sized_def split: option.splits)

lemma fresh_not_alias:
  assumes "vectorValid h w" "vsize w \<noteq> 0" "vdata w = Some b" "heapAt h d = None"
  shows "b \<noteq> d"
  using assms by (auto simp: vectorValid_def split: option.splits)

lemma fieldBinaryOp_effect:
  assumes "vectorValid h r" "vsize r \<le> vsize b"
    and "vectorElems h r = Inr xs" "vectorElems h b = Inr ys" "length ys = vsize b"
  shows "\<exists>h'. fieldBinaryOp f r b h = Inr h' \<and> vectorElems h' r = Inr (map2 f xs ys)
           \<and> vectorValid h' r
           \<and> (\<forall>q. vdata r \<noteq> Some q \<longrightarrow> heapAt h' q = heapAt h q)
           \<and> (vsize r = 0 \<longrightarrow> h' = h)"
proof -
  from vectorElems_valid[OF assms(1)] assms(3) have "length xs = vsize r" by simp
  then have "length (map2 f xs ys) = vsize r" using assms(2,5) by simp
  from storeElems_valid[OF assms(1) this] show ?thesis
    using assms(2,3,4) by (auto simp: fieldBinaryOp_def)
qed

lemma scalarMul_effect:
  assumes "vectorValid h r" "vectorElems h r = Inr xs"
  shows "\<exists>h'. scalarMul r s h = Inr h' \<and> vectorElems h' r = Inr (map (\<lambda>x. x * s) xs)
           \<and> vectorValid h' r
           \<and> (\<forall>q. vdata r \<noteq> Some q \<longrightarrow> heapAt h' q = heapAt h q)
           \<and> (vsize r = 0 \<longrightarrow> h' = h)"
proof -
  from vectorElems_valid[OF assms(1)] assms(2) have "length (map (\<lambda>x. x * s) xs) = vsize r"
    by simp
  from storeElems_valid[OF assms(1) this] show ?thesis
    using assms(2) by (auto simp: scalarMul_def)
qed

lemma map2_snd: "length xs = length ys \<Longrightarrow> map2 (\<lambda>x y. y) xs ys = ys"
  by (induction xs ys rule: list_induct2) simp_all

text \<open>
  \<^verbatim>\<open>Vector<ValueType> result(exec_, size_); result = *this;\<close> with a successful
  allocation: \<open>result\<close> holds the elements of \<open>this\<close> in a block that did not exist
  before, and every block that did is as it was.
\<close>

lemma fresh_assigned:
  assumes fresh: "allocFresh A" and a: "vectorValid h a"
    and r: "Vector_sized A (vexec a) (vsize a) h = Inr (r, h1)"
    and es: "vectorElems h a = Inr es"
  shows "\<exists>h2. assignVector A r a h1 = Inr (r, h2) \<and> vectorValid h2 r \<and> vsize r = vsize a
           \<and> vexec r = vexec a
           \<and> vectorElems h2 r = Inr es
           \<and> (\<forall>q. heapAt h q \<noteq> None \<longrightarrow> heapAt h2 q = heapAt h q)
           \<and> (\<forall>p. vdata r = Some p \<longrightarrow> heapAt h p = None)"
proof -
  from a have sz: "vsize a < 2 ^ 32" by (simp add: vectorValid_def)
  from Vector_sized_fresh[OF fresh sz r] have
    r1: "vsize r = vsize a" "vexec r = vexec a" "vectorValid h1 r"
        "\<forall>b. heapAt h b \<noteq> None \<longrightarrow> heapAt h1 b = heapAt h b"
        "\<forall>p. vdata r = Some p \<longrightarrow> heapAt h p = None" by simp_all
  have a1: "vectorValid h1 a" using a r1(4)
    by (intro vectorValid_frame[OF a]) (auto simp: vectorValid_def split: option.splits)
  have es1: "vectorElems h1 a = Inr es" using a r1(4) es
    by (subst vectorElems_frame[OF a]) (auto simp: vectorValid_def split: option.splits)
  from vectorElems_valid[OF a] es have les: "length es = vsize a" by simp
  from vectorElems_valid[OF r1(3)] obtain xs where
    xs: "vectorElems h1 r = Inr xs" "length xs = vsize r" by blast
  from fieldBinaryOp_effect[OF r1(3) _ xs(1) es1 les, of "\<lambda>x y. y"] r1(1) obtain h2 where
    h2: "setVector r a h1 = Inr h2" "vectorElems h2 r = Inr (map2 (\<lambda>x y. y) xs es)"
        "vectorValid h2 r" "\<forall>q. vdata r \<noteq> Some q \<longrightarrow> heapAt h2 q = heapAt h1 q"
    by (auto simp: setVector_def)
  have "map2 (\<lambda>x y. y) xs es = es" using xs(2) les r1(1) by (intro map2_snd) simp
  then have rd: "vectorElems h2 r = Inr es" using h2(2) by simp
  have fr: "\<forall>q. heapAt h q \<noteq> None \<longrightarrow> heapAt h2 q = heapAt h q"
  proof (intro allI impI)
    fix q assume q: "heapAt h q \<noteq> None"
    then have "vdata r \<noteq> Some q" using r1(5) by auto
    then show "heapAt h2 q = heapAt h q" using h2(4) r1(4) q by simp
  qed
  have "assignVector A r a h1 = Inr (r, h2)"
    using r1(1,2) h2(1) by (simp add: assignVector_def NF_ASSERT_def)
  then show ?thesis using h2(3) r1(1,2,5) rd fr by blast
qed

lemma elems_frame_allocated:
  assumes "vectorValid h w" "\<forall>q. heapAt h q \<noteq> None \<longrightarrow> heapAt h' q = heapAt h q"
  shows "vectorElems h' w = vectorElems h w" "vectorValid h' w"
proof -
  have *: "\<And>b. vsize w \<noteq> 0 \<Longrightarrow> vdata w = Some b \<Longrightarrow> heapAt h' b = heapAt h b"
    using assms by (auto simp: vectorValid_def split: option.splits)
  show "vectorElems h' w = vectorElems h w" using assms(1) * by (rule vectorElems_frame)
  show "vectorValid h' w" using assms(1) * by (rule vectorValid_frame)
qed

lemma timesScalar_effect:
  assumes fresh: "allocFresh A" and a: "vectorValid h a"
  shows "timesScalar A a s h = Inl AllocationFailure
       \<or> (\<exists>r h' es. timesScalar A a s h = Inr (r, h')
             \<and> vectorElems h a = Inr es \<and> vectorElems h' a = Inr es
             \<and> vectorElems h' r = Inr (map (\<lambda>x. x * s) es)
             \<and> vsize r = vsize a \<and> vexec r = vexec a
             \<and> (\<forall>p. vdata r = Some p \<longrightarrow> heapAt h p = None)
             \<and> (\<forall>q. heapAt h q \<noteq> None \<longrightarrow> heapAt h' q = heapAt h q))"
proof -
  from Vector_sized_cases[of A "vexec a" "vsize a" h] show ?thesis
  proof
    assume "Vector_sized A (vexec a) (vsize a) h = Inl AllocationFailure"
    then show ?thesis by (simp add: timesScalar_def)
  next
    assume "\<exists>r h1. Vector_sized A (vexec a) (vsize a) h = Inr (r, h1)"
    then obtain r h1 where r: "Vector_sized A (vexec a) (vsize a) h = Inr (r, h1)" by blast
    from vectorElems_valid[OF a] obtain es where es: "vectorElems h a = Inr es" by blast
    from fresh_assigned[OF fresh a r es] obtain h2 where
      h2: "assignVector A r a h1 = Inr (r, h2)" "vectorValid h2 r" "vsize r = vsize a"
          "vexec r = vexec a" "vectorElems h2 r = Inr es"
          "\<forall>q. heapAt h q \<noteq> None \<longrightarrow> heapAt h2 q = heapAt h q"
          "\<forall>p. vdata r = Some p \<longrightarrow> heapAt h p = None" by blast
    from scalarMul_effect[OF h2(2,5), of s] obtain h3 where
      h3: "scalarMul r s h2 = Inr h3" "vectorElems h3 r = Inr (map (\<lambda>x. x * s) es)"
          "\<forall>q. vdata r \<noteq> Some q \<longrightarrow> heapAt h3 q = heapAt h2 q" by blast
    have fr: "\<forall>q. heapAt h q \<noteq> None \<longrightarrow> heapAt h3 q = heapAt h q"
    proof (intro allI impI)
      fix q assume q: "heapAt h q \<noteq> None"
      then have "vdata r \<noteq> Some q" using h2(7) by auto
      then show "heapAt h3 q = heapAt h q" using h3(3) h2(6) q by simp
    qed
    have "timesScalar A a s h = Inr (r, h3)"
      by (simp add: timesScalar_def r h2(1) h3(1))
    moreover have "vectorElems h3 a = Inr es" using elems_frame_allocated(1)[OF a fr] es by simp
    ultimately show ?thesis using es h3(2) h2(3,4,7) fr by blast
  qed
qed

lemma timesVector_effect:
  assumes fresh: "allocFresh A" and a: "vectorValid h a" and b: "vectorValid h b"
    and same: "vsize b = vsize a" "vexec b = vexec a"
  shows "timesVector A dbg a b h = Inl AllocationFailure
       \<or> (\<exists>r h' es bs. timesVector A dbg a b h = Inr (r, h')
             \<and> vectorElems h a = Inr es \<and> vectorElems h' a = Inr es
             \<and> vectorElems h b = Inr bs \<and> vectorElems h' b = Inr bs
             \<and> vectorElems h' r = Inr (map2 (\<lambda>x y. x * y) es bs)
             \<and> vsize r = vsize a \<and> vexec r = vexec a
             \<and> (\<forall>p. vdata r = Some p \<longrightarrow> heapAt h p = None)
             \<and> (\<forall>q. heapAt h q \<noteq> None \<longrightarrow> heapAt h' q = heapAt h q))"
proof -
  have val: "validateOtherVector dbg a b = Inr ()"
    using same by (cases dbg) (simp_all add: validateOtherVector_debug validateOtherVector_release)
  from Vector_sized_cases[of A "vexec a" "vsize a" h] show ?thesis
  proof
    assume "Vector_sized A (vexec a) (vsize a) h = Inl AllocationFailure"
    then show ?thesis by (simp add: timesVector_def val)
  next
    assume "\<exists>r h1. Vector_sized A (vexec a) (vsize a) h = Inr (r, h1)"
    then obtain r h1 where r: "Vector_sized A (vexec a) (vsize a) h = Inr (r, h1)" by blast
    from vectorElems_valid[OF a] obtain es where es: "vectorElems h a = Inr es" by blast
    from vectorElems_valid[OF b] obtain bs where
      bs: "vectorElems h b = Inr bs" "length bs = vsize b" by blast
    from fresh_assigned[OF fresh a r es] obtain h2 where
      h2: "assignVector A r a h1 = Inr (r, h2)" "vectorValid h2 r" "vsize r = vsize a"
          "vexec r = vexec a" "vectorElems h2 r = Inr es"
          "\<forall>q. heapAt h q \<noteq> None \<longrightarrow> heapAt h2 q = heapAt h q"
          "\<forall>p. vdata r = Some p \<longrightarrow> heapAt h p = None" by blast
    have bs2: "vectorElems h2 b = Inr bs" using elems_frame_allocated(1)[OF b h2(6)] bs by simp
    from fieldBinaryOp_effect[OF h2(2) _ h2(5) bs2 bs(2), of "\<lambda>x y. x * y"] h2(3) same(1)
    obtain h3 where
      h3: "mul r b h2 = Inr h3" "vectorElems h3 r = Inr (map2 (\<lambda>x y. x * y) es bs)"
          "\<forall>q. vdata r \<noteq> Some q \<longrightarrow> heapAt h3 q = heapAt h2 q"
      by (auto simp: mul_def)
    have fr: "\<forall>q. heapAt h q \<noteq> None \<longrightarrow> heapAt h3 q = heapAt h q"
    proof (intro allI impI)
      fix q assume q: "heapAt h q \<noteq> None"
      then have "vdata r \<noteq> Some q" using h2(7) by auto
      then show "heapAt h3 q = heapAt h q" using h3(3) h2(6) q by simp
    qed
    have "timesVector A dbg a b h = Inr (r, h3)"
      by (simp add: timesVector_def val r h2(1) h3(1))
    moreover have "vectorElems h3 a = Inr es" using elems_frame_allocated(1)[OF a fr] es by simp
    moreover have "vectorElems h3 b = Inr bs" using elems_frame_allocated(1)[OF b fr] bs by simp
    ultimately show ?thesis using es bs(1) h3(2) h2(3,4,7) fr by blast
  qed
qed

lemma bumpAllocator_fresh: "allocFresh bumpAllocator"
proof -
  have "bytes \<le> (bytes + sizeofValue - 1) div sizeofValue * sizeofValue" for bytes
    by (simp add: sizeofValue_def)
  then show ?thesis
    by (auto simp: allocFresh_def bumpAllocator_def bumpAlloc_def heapAt_def nth_append
        split: option.splits if_splits)
qed

lemma two_vectors_valid:
  "vectorValid [Some [1, 2], Some [3, 4]] \<lparr>vsize = 2, vdata = Some 0, vexec = SerialExecutor\<rparr>"
  "vectorValid [Some [1, 2], Some [3, 4]] \<lparr>vsize = 2, vdata = Some 1, vexec = SerialExecutor\<rparr>"
  by (simp_all add: vectorValid_def heapAt_def)

lemma allocBytes_2: "allocBytes 2 = 16"
  by (simp add: allocBytes_def sizeofValue_def)

lemma replicate_2: "replicate 2 x = [x, x]"
  by (simp add: numeral_2_eq_2)

lemma timesScalar_example:
  "timesScalar bumpAllocator \<lparr>vsize = 2, vdata = Some 0, vexec = SerialExecutor\<rparr> 10
     [Some [1, 2], Some [3, 4]]
   = Inr (\<lparr>vsize = 2, vdata = Some 2, vexec = SerialExecutor\<rparr>,
          [Some [1, 2], Some [3, 4], Some [10, 20]])"
  by (simp add: timesScalar_def Vector_sized_def bumpAllocator_def bumpAlloc_def allocBytes_2
      sizeofValue_def replicate_2 assignVector_def NF_ASSERT_def setVector_def fieldBinaryOp_def
      scalarMul_def vectorElems_def storeElems_def heapAt_def heapPut_def)

lemma timesVector_example:
  "timesVector bumpAllocator False \<lparr>vsize = 2, vdata = Some 0, vexec = SerialExecutor\<rparr>
     \<lparr>vsize = 2, vdata = Some 1, vexec = SerialExecutor\<rparr> [Some [1, 2], Some [3, 4]]
   = Inr (\<lparr>vsize = 2, vdata = Some 2, vexec = SerialExecutor\<rparr>,
          [Some [1, 2], Some [3, 4], Some [3, 8]])"
  by (simp add: timesVector_def validateOtherVector_release Vector_sized_def bumpAllocator_def
      bumpAlloc_def allocBytes_2 sizeofValue_def replicate_2 assignVector_def NF_ASSERT_def
      setVector_def mul_def fieldBinaryOp_def vectorElems_def storeElems_def heapAt_def
      heapPut_def)

section \<open>Copies\<close>

lemma Vector_copy_effect:
  assumes fresh: "allocFresh A" and v: "vectorValid h v"
  shows "Vector_copy A v h = Inl AllocationFailure
       \<or> (\<exists>r h' es. Vector_copy A v h = Inr (r, h')
             \<and> vsize r = vsize v \<and> vexec r = vexec v \<and> vectorValid h' r
             \<and> vectorElems h v = Inr es \<and> vectorElems h' r = Inr es
             \<and> (\<forall>p. vdata r = Some p \<longrightarrow> heapAt h p = None)
             \<and> (\<forall>q. heapAt h q \<noteq> None \<longrightarrow> heapAt h' q = heapAt h q))"
proof -
  from v have sz: "vsize v < 2 ^ 32" by (simp add: vectorValid_def)
  from Vector_sized_cases[of A "vexec v" "vsize v" h] show ?thesis
  proof
    assume "Vector_sized A (vexec v) (vsize v) h = Inl AllocationFailure"
    then show ?thesis by (simp add: Vector_copy_def Vector_fromPtr_def)
  next
    assume "\<exists>r h1. Vector_sized A (vexec v) (vsize v) h = Inr (r, h1)"
    then obtain r h1 where r: "Vector_sized A (vexec v) (vsize v) h = Inr (r, h1)" by blast
    from Vector_sized_fresh[OF fresh sz r] have
      r1: "vsize r = vsize v" "vexec r = vexec v" "vectorValid h1 r"
          "\<forall>b. heapAt h b \<noteq> None \<longrightarrow> heapAt h1 b = heapAt h b"
          "\<forall>p. vdata r = Some p \<longrightarrow> heapAt h p = None" by simp_all
    from v show ?thesis
    proof (cases rule: vectorValid_cases)
      case empty
      then have "Vector_copy A v h = Inr (r, h1)"
        using r r1(1) by (simp add: Vector_copy_def Vector_fromPtr_def deepCopy_def)
      moreover have "vectorElems h v = Inr []" "vectorElems h1 r = Inr []"
        using empty r1(1) by (simp_all add: vectorElems_def)
      ultimately show ?thesis using r1 by blast
    next
      case (block s sb)
      from r1(3) block(1) r1(1) obtain d db where
        d: "vdata r = Some d" "heapAt h1 d = Some db" "vsize v \<le> length db"
        by (cases rule: vectorValid_cases) auto
      have s1: "heapAt h1 s = Some sb" using r1(4) block(3) by simp
      let ?h = "heapPut h1 d (take (vsize v) sb @ drop (vsize v) db)"
      have dc: "deepCopy (vsize r) (vdata v) (vdata r) h1 = Inr ?h"
        using block d s1 r1(1) by (simp add: deepCopy_def)
      have cp: "Vector_copy A v h = Inr (r, ?h)"
        using r dc by (simp add: Vector_copy_def Vector_fromPtr_def)
      have dl: "d < length h1" using d(2) by (rule heapAt_Some_lt)
      have at: "heapAt ?h d = Some (take (vsize v) sb @ drop (vsize v) db)"
        using dl by (simp add: heapAt_heapPut)
      have rd: "vectorElems ?h r = Inr (take (vsize v) sb)"
        using d(1,3) at r1(1) block(1,4) by (simp add: vectorElems_def)
      have val: "vectorValid ?h r"
        using r1(1) sz d(1,3) at block(4) by (simp add: vectorValid_def)
      have fr: "\<forall>q. heapAt h q \<noteq> None \<longrightarrow> heapAt ?h q = heapAt h q"
      proof (intro allI impI)
        fix q assume q: "heapAt h q \<noteq> None"
        then have "q \<noteq> d" using r1(5) d(1) by auto
        then show "heapAt ?h q = heapAt h q" using r1(4) q by (simp add: heapAt_heapPut)
      qed
      have "vectorElems h v = Inr (take (vsize v) sb)"
        using block by (simp add: vectorElems_def)
      then show ?thesis using cp r1(1,2,5) val rd fr by blast
    qed
  qed
qed

lemma viewStore_effect:
  assumes r: "vectorValid h r" and es: "vectorElems h r = Inr es" and i: "i < vsize r"
  shows "\<exists>h'. viewStore r i x h = Inr h' \<and> vectorElems h' r = Inr (es[i := x])
           \<and> (\<forall>q. vdata r \<noteq> Some q \<longrightarrow> heapAt h' q = heapAt h q)"
proof -
  from vectorElems_valid[OF r] es have "length (es[i := x]) = vsize r" by simp
  from storeElems_valid[OF r this] show ?thesis
    using es i by (auto simp: viewStore_def)
qed

lemma copyToExecutor_example:
  "copyToExecutor bumpAllocator \<lparr>vsize = 2, vdata = Some 0, vexec = SerialExecutor\<rparr>
     SerialExecutor [Some [1, 2], Some [3, 4]]
   = Inr (\<lparr>vsize = 2, vdata = Some 2, vexec = SerialExecutor\<rparr>,
          [Some [1, 2], Some [3, 4], Some [1, 2]])"
  by (simp add: copyToExecutor_def Vector_copy_def Vector_fromPtr_def Vector_sized_def
      bumpAllocator_def bumpAlloc_def allocBytes_2 sizeofValue_def replicate_2 deepCopy_def
      heapAt_def heapPut_def)

section \<open>Claims\<close>



text \<open>
  C2 (as amended). Implicit divergence assembly, one internal face with flux \<open>f\<close>, owner
  \<open>o\<close>, neighbour \<open>n\<close>, scalings \<open>s_o\<close> and \<open>s_n\<close> and upwind weight \<open>w = 1\<close> if
  \<open>f \<ge> 0\<close> else \<open>0\<close>: \<open>v1 = -w*f\<close> scaled by \<open>s_n\<close> is added to the neighbour's
  off-diagonal slot and \<open>v1\<close> scaled by the owner's own scaling \<open>s_o\<close> is subtracted from
  the owner's diagonal slot; \<open>v2 = (1-w)*f\<close> scaled by \<open>s_o\<close> is added to the owner's
  off-diagonal slot and \<open>v2\<close> scaled by the neighbour's own scaling \<open>s_n\<close> is subtracted
  from the neighbour's diagonal slot. Nothing else changes.
\<close>

theorem divImp_internal_face:
  assumes "internalFaceOK sFaceFlux owner neighbour sc diagOffs ownOffs neiOffs ls facei"
    and "own = owner ! facei" and "nei = neighbour ! facei"
    and "nOff = matrix_rowOffs ls ! nei + neiOffs ! facei"
    and "oDiag = matrix_rowOffs ls ! own + diagOffs ! own"
    and "oOff = matrix_rowOffs ls ! own + ownOffs ! facei"
    and "nDiag = matrix_rowOffs ls ! nei + diagOffs ! nei"
    and "f = sFaceFlux ! facei" and "w = (if f \<ge> 0 then 1 else 0)"
    and "s_o = coeffVal sc own" and "s_n = coeffVal sc nei"
    and "v1 = - w * f" and "v2 = (1 - w) * f"
  shows "\<exists>ls'. runKernel peekLS pokeLS
                 (divImpInternalOps sFaceFlux owner neighbour (matrix_rowOffs ls) sc diagOffs
                    ownOffs neiOffs) facei ls = Some ls'
           \<and> matrix_values ls' ! nOff = matrix_values ls ! nOff + v1 * s_n
           \<and> matrix_values ls' ! oDiag = matrix_values ls ! oDiag - v1 * s_o
           \<and> matrix_values ls' ! oOff = matrix_values ls ! oOff + v2 * s_o
           \<and> matrix_values ls' ! nDiag = matrix_values ls ! nDiag - v2 * s_n
           \<and> (\<forall>k<length (matrix_values ls). k \<notin> {nOff, oDiag, oOff, nDiag}
                  \<longrightarrow> matrix_values ls' ! k = matrix_values ls ! k)
           \<and> length (matrix_values ls') = length (matrix_values ls)
           \<and> ls_rhs ls' = ls_rhs ls
           \<and> matrix_rowOffs ls' = matrix_rowOffs ls"
proof -
  from assms(1-7) have lt: "nOff < length (matrix_values ls)"
      "oDiag < length (matrix_values ls)" "oOff < length (matrix_values ls)"
      "nDiag < length (matrix_values ls)"
    and dist: "nOff \<noteq> oDiag" "nOff \<noteq> oOff" "nOff \<noteq> nDiag" "oDiag \<noteq> oOff" "oDiag \<noteq> nDiag"
      "oOff \<noteq> nDiag"
    by (simp_all add: internalFaceOK_def Let_def)
  have v: "v1 = - upwindWeight (sFaceFlux ! facei) * sFaceFlux ! facei"
    "v2 = (1 - upwindWeight (sFaceFlux ! facei)) * sFaceFlux ! facei"
    using assms(8,9,12,13) by (simp_all add: upwindWeight_def)
  show ?thesis
    unfolding divImp_internal_effect[OF assms(1-7) v] using lt dist assms(10,11)
    by (auto simp: nth_list_update)
qed

theorem divImp_internal_face_witness:
  "\<exists>ls'. runKernel peekLS pokeLS
           (divImpInternalOps [1] [0] [1] [0, 2, 4] (CoeffPerCell [1, 2]) [0, 1] [1] [0]) 0
           \<lparr>matrix_values = [0, 0, 0, 0], matrix_rowOffs = [0, 2, 4], ls_rhs = [0, 0]\<rparr>
           = Some ls'
         \<and> matrix_values ls' ! 2 = - 2 \<and> matrix_values ls' ! 0 = 1"
proof -
  have ok: "internalFaceOK [1] [0] [1] (CoeffPerCell [1, 2]) [0, 1] [1] [0]
              \<lparr>matrix_values = [0, 0, 0, 0], matrix_rowOffs = [0, 2, 4], ls_rhs = [0, 0]\<rparr> 0"
    by (simp add: internalFaceOK_def)
  from divImp_internal_face[OF ok refl refl refl refl refl refl refl refl refl refl refl refl]
  obtain ls' where "runKernel peekLS pokeLS
           (divImpInternalOps [1] [0] [1] [0, 2, 4] (CoeffPerCell [1, 2]) [0, 1] [1] [0]) 0
           \<lparr>matrix_values = [0, 0, 0, 0], matrix_rowOffs = [0, 2, 4], ls_rhs = [0, 0]\<rparr>
           = Some ls'"
    "matrix_values ls' ! 2 = - 2" "matrix_values ls' ! 0 = 1"
    by auto
  then show ?thesis by blast
qed

text \<open>
  The claim as the spec words it subtracts "the same signed" \<open>v1*s_n\<close> from the owner's
  diagonal and \<open>v2*s_o\<close> from the neighbour's. With \<open>s_o = 1\<close>, \<open>s_n = 2\<close> and flux \<open>1\<close>
  the owner's diagonal (slot 0) ends at \<open>1 = -(v1*s_o)\<close>, not at \<open>2 = -(v1*s_n)\<close>; with
  flux \<open>-1\<close> the neighbour's diagonal (slot 3) ends at \<open>2 = -(v2*s_n)\<close>, not at
  \<open>1 = -(v2*s_o)\<close>.
\<close>

theorem divImp_internal_face_counterexample:
  "runKernel peekLS pokeLS
     (divImpInternalOps [1] [0] [1] [0, 2, 4] (CoeffPerCell [1, 2]) [0, 1] [1] [0]) 0
     \<lparr>matrix_values = [0, 0, 0, 0], matrix_rowOffs = [0, 2, 4], ls_rhs = [0, 0]\<rparr>
   = Some \<lparr>matrix_values = [1, 0, - 2, 0], matrix_rowOffs = [0, 2, 4], ls_rhs = [0, 0]\<rparr>
   \<and> runKernel peekLS pokeLS
     (divImpInternalOps [- 1] [0] [1] [0, 2, 4] (CoeffPerCell [1, 2]) [0, 1] [1] [0]) 0
     \<lparr>matrix_values = [0, 0, 0, 0], matrix_rowOffs = [0, 2, 4], ls_rhs = [0, 0]\<rparr>
   = Some \<lparr>matrix_values = [0, - 1, 0, 2], matrix_rowOffs = [0, 2, 4], ls_rhs = [0, 0]\<rparr>"
  by (simp add: runKernel_def divImpInternalOps_def viewAt_def viewPoke_def localIdxAdd_def)



text \<open>
  C4 (as amended). Explicit divergence assembly on the one-dimensional mesh of \<open>N \<ge> 2\<close>
  cells with unit face value, unit flux on the internal faces and uniform scaling \<open>s\<close>:
  the result of every strictly interior cell is \<open>0\<close>; the result of the first cell is
  \<open>(1 + bFirst) * s / volume\<close> and that of the last cell \<open>(bLast - 1) * s / volume\<close>,
  where \<open>bFirst\<close> and \<open>bLast\<close> are the fluxes of the two boundary faces. With the unit
  flux on the boundary faces too, the first cell is the only one with a nonzero result,
  \<open>2 * s / volume\<close>; the result of the last cell is \<open>0\<close>.
\<close>

theorem computeDiv_1D_uniform:
  assumes "1 < N" "N < 2 ^ 31" "length v = N" "0 \<notin> set v"
  shows "\<exists>r. computeDiv1D SerialExecutor scheds N v s bFirst bLast = Some r \<and> length r = N
           \<and> (\<forall>c. 0 < c \<and> c < N - 1 \<longrightarrow> r ! c = 0)
           \<and> r ! 0 = (1 + bFirst) * s / v ! 0
           \<and> r ! (N - 1) = (bLast - 1) * s / v ! (N - 1)
           \<and> (bFirst = 1 \<and> bLast = 1 \<longrightarrow> r ! 0 = 2 * s / v ! 0 \<and> r ! (N - 1) = 0)"
proof -
  have N: "0 < N" using assms(1) by simp
  from computeDiv1D_effect[OF N assms(2-4), of scheds s bFirst bLast] obtain r where
    r: "computeDiv1D SerialExecutor scheds N v s bFirst bLast = Some r" "length r = N"
       "\<forall>c<N. r ! c = ((if c < N - 1 then 1 else 0) - (if 0 < c then 1 else 0)
                               + (if c = 0 then bFirst else 0)
                               + (if c = N - 1 then bLast else 0))
                              * (s / v ! c)"
    by blast
  have i: "\<forall>c. 0 < c \<and> c < N - 1 \<longrightarrow> r ! c = 0" using r(3) by auto
  have f: "r ! 0 = (1 + bFirst) * s / v ! 0" using r(3) assms(1) by simp
  have l: "r ! (N - 1) = (bLast - 1) * s / v ! (N - 1)" using r(3) assms(1) by simp
  from f l have "bFirst = 1 \<and> bLast = 1 \<longrightarrow> r ! 0 = 2 * s / v ! 0 \<and> r ! (N - 1) = 0" by simp
  with r(1,2) i f l show ?thesis by blast
qed

theorem computeDiv_1D_uniform_witness:
  "\<exists>r. computeDiv1D SerialExecutor ([], [], []) 3 [1, 1, 1] 1 1 1 = Some r \<and> length r = 3
        \<and> r ! 0 = 2 \<and> r ! 1 = 0 \<and> r ! 2 = 0"
proof -
  have "(1::nat) < 3" "(3::nat) < 2 ^ 31" by simp_all
  from computeDiv_1D_uniform[OF this, of "[1, 1, 1]" "([], [], [])" 1 1 1]
  obtain r where r: "computeDiv1D SerialExecutor ([], [], []) 3 [1, 1, 1] 1 1 1 = Some r"
    "length r = 3" "\<forall>c. 0 < c \<and> c < 3 - 1 \<longrightarrow> r ! c = 0" "r ! 0 = 2" "r ! (3 - 1) = 0"
    by auto
  from r(3) have "r ! 1 = 0" by simp
  moreover from r(5) have "r ! 2 = 0" by simp
  ultimately show ?thesis using r(1,2,4) by blast
qed

text \<open>
  The claim as the spec words it has both end cells receive a nonzero contribution. On
  three cells with unit flux on all four faces the last cell is the neighbour of the last
  internal face (loss \<open>1\<close>) and the cell of a boundary face (gain \<open>1\<close>): its result is
  \<open>0\<close>.
\<close>

theorem computeDiv_1D_uniform_counterexample:
  "computeDiv1D SerialExecutor ([], [], []) 3 [1, 1, 1] 1 1 1 = Some [2, 0, 0]"
  unfolding computeDiv1D_def mesh1D_3
  by (simp add: computeDiv_def computeDivSerial_def forLoop.simps localIdxAdd_def
      sumFluxesInternalBody_def sumFluxesBoundaryBody_def normalizeFluxesBody_def viewAt_def
      viewModify_def)



text \<open>
  C6 (as amended). In a build that compiles the debug assertions in, \<^verbatim>\<open>+=\<close>, \<^verbatim>\<open>-=\<close> and
  \<^verbatim>\<open>*=\<close> by a vector report a failed assertion whenever the operands differ in size or in
  executor. In a build that does not, \<^verbatim>\<open>validateOtherVector\<close> checks nothing and the three
  operators are the elementwise functions \<^verbatim>\<open>add\<close>, \<^verbatim>\<open>sub\<close> and \<^verbatim>\<open>mul\<close> themselves.
\<close>

theorem vector_arith_validation:
  assumes "vsize a \<noteq> vsize b \<or> vexec a \<noteq> vexec b"
  shows "(\<exists>msg. plusAssign True a b h = Inl (AssertionFailed msg)
               \<and> minusAssign True a b h = Inl (AssertionFailed msg)
               \<and> timesAssign True a b h = Inl (AssertionFailed msg))
       \<and> validateOtherVector False a b = Inr ()
       \<and> plusAssign False a b h = add a b h
       \<and> minusAssign False a b h = sub a b h
       \<and> timesAssign False a b h = mul a b h"
  using assms
  by (auto simp: plusAssign_def minusAssign_def timesAssign_def validateOtherVector_debug
      validateOtherVector_release)

theorem vector_arith_validation_witness:
  "(\<exists>msg. plusAssign True \<lparr>vsize = 1, vdata = Some 0, vexec = SerialExecutor\<rparr>
             \<lparr>vsize = 2, vdata = Some 1, vexec = SerialExecutor\<rparr> [Some [1], Some [10, 20]]
           = Inl (AssertionFailed msg))
   \<and> (\<exists>msg. timesAssign True \<lparr>vsize = 1, vdata = Some 0, vexec = SerialExecutor\<rparr>
             \<lparr>vsize = 1, vdata = Some 1, vexec = CPUExecutor\<rparr> [Some [1], Some [10]]
           = Inl (AssertionFailed msg))"
proof -
  have "vsize \<lparr>vsize = 1, vdata = Some 0, vexec = SerialExecutor\<rparr>
          \<noteq> vsize \<lparr>vsize = 2, vdata = Some 1, vexec = SerialExecutor\<rparr>
        \<or> vexec \<lparr>vsize = 1, vdata = Some 0, vexec = SerialExecutor\<rparr>
          \<noteq> vexec \<lparr>vsize = 2, vdata = Some 1, vexec = SerialExecutor\<rparr>" by simp
  from vector_arith_validation[OF this, of "[Some [1], Some [10, 20]]"]
  have 1: "\<exists>msg. plusAssign True \<lparr>vsize = 1, vdata = Some 0, vexec = SerialExecutor\<rparr>
             \<lparr>vsize = 2, vdata = Some 1, vexec = SerialExecutor\<rparr> [Some [1], Some [10, 20]]
           = Inl (AssertionFailed msg)" by blast
  have "vsize \<lparr>vsize = 1, vdata = Some 0, vexec = SerialExecutor\<rparr>
          \<noteq> vsize \<lparr>vsize = 1, vdata = Some 1, vexec = CPUExecutor\<rparr>
        \<or> vexec \<lparr>vsize = 1, vdata = Some 0, vexec = SerialExecutor\<rparr>
          \<noteq> vexec \<lparr>vsize = 1, vdata = Some 1, vexec = CPUExecutor\<rparr>" by simp
  from vector_arith_validation[OF this, of "[Some [1], Some [10]]"]
  have 2: "\<exists>msg. timesAssign True \<lparr>vsize = 1, vdata = Some 0, vexec = SerialExecutor\<rparr>
             \<lparr>vsize = 1, vdata = Some 1, vexec = CPUExecutor\<rparr> [Some [1], Some [10]]
           = Inl (AssertionFailed msg)" by blast
  from 1 2 show ?thesis by blast
qed

text \<open>
  The claim as the spec words it has the violation reported "even in optimized builds".
  Without the debug assertions, \<^verbatim>\<open>+=\<close> on two one-element vectors of different executors
  returns with the sum stored, and \<^verbatim>\<open>validateOtherVector\<close> accepts operands of sizes
  \<open>1\<close> and \<open>2\<close>.
\<close>

theorem vector_arith_validation_counterexample:
  "plusAssign False \<lparr>vsize = 1, vdata = Some 0, vexec = SerialExecutor\<rparr>
     \<lparr>vsize = 1, vdata = Some 1, vexec = CPUExecutor\<rparr> [Some [1], Some [10]]
   = Inr [Some [11], Some [10]]
   \<and> validateOtherVector False \<lparr>vsize = 1, vdata = Some 0, vexec = SerialExecutor\<rparr>
        \<lparr>vsize = 2, vdata = Some 1, vexec = SerialExecutor\<rparr> = Inr ()"
  by (simp add: plusAssign_def validateOtherVector_release add_def fieldBinaryOp_def
      vectorElems_def storeElems_def heapAt_def heapPut_def)

text \<open>
  C7. \<^verbatim>\<open>copyToExecutor\<close> to the executor the vector is bound to: unless the allocation
  fails, the call returns a vector of the same size, on the same executor, with the same
  elements, in a block that was not allocated before the call; the source reads as before;
  and writing any element of the result through its view changes that element of the
  result and no element of the source.
\<close>

theorem copyToExecutor_same_executor:
  assumes "allocFresh A" and "vectorValid h v"
  shows "copyToExecutor A v (vexec v) h = Inl AllocationFailure
       \<or> (\<exists>r h' es. copyToExecutor A v (vexec v) h = Inr (r, h')
             \<and> vsize r = vsize v \<and> vexec r = vexec v
             \<and> vectorElems h v = Inr es \<and> vectorElems h' v = Inr es
             \<and> vectorElems h' r = Inr es
             \<and> (\<forall>p. vdata r = Some p \<longrightarrow> heapAt h p = None)
             \<and> (\<forall>i x. i < vsize r \<longrightarrow>
                   (\<exists>h''. viewStore r i x h' = Inr h''
                      \<and> vectorElems h'' r = Inr (es[i := x])
                      \<and> vectorElems h'' v = Inr es)))"
proof -
  from Vector_copy_effect[OF assms] show ?thesis
  proof
    assume "Vector_copy A v h = Inl AllocationFailure"
    then show ?thesis by (simp add: copyToExecutor_def)
  next
    assume "\<exists>r h' es. Vector_copy A v h = Inr (r, h')
             \<and> vsize r = vsize v \<and> vexec r = vexec v \<and> vectorValid h' r
             \<and> vectorElems h v = Inr es \<and> vectorElems h' r = Inr es
             \<and> (\<forall>p. vdata r = Some p \<longrightarrow> heapAt h p = None)
             \<and> (\<forall>q. heapAt h q \<noteq> None \<longrightarrow> heapAt h' q = heapAt h q)"
    then obtain r h' es where
      c: "Vector_copy A v h = Inr (r, h')" "vsize r = vsize v" "vexec r = vexec v"
         "vectorValid h' r" "vectorElems h v = Inr es" "vectorElems h' r = Inr es"
         "\<forall>p. vdata r = Some p \<longrightarrow> heapAt h p = None"
         "\<forall>q. heapAt h q \<noteq> None \<longrightarrow> heapAt h' q = heapAt h q" by blast
    have v': "vectorElems h' v = Inr es"
      using elems_frame_allocated(1)[OF assms(2) c(8)] c(5) by simp
    have "\<exists>h''. viewStore r i x h' = Inr h'' \<and> vectorElems h'' r = Inr (es[i := x])
            \<and> vectorElems h'' v = Inr es" if i: "i < vsize r" for i x
    proof -
      from viewStore_effect[OF c(4,6) i, of x] obtain h'' where
        h'': "viewStore r i x h' = Inr h''" "vectorElems h'' r = Inr (es[i := x])"
             "\<forall>q. vdata r \<noteq> Some q \<longrightarrow> heapAt h'' q = heapAt h' q" by blast
      have "\<forall>q. heapAt h q \<noteq> None \<longrightarrow> heapAt h'' q = heapAt h q"
      proof (intro allI impI)
        fix q assume q: "heapAt h q \<noteq> None"
        then have "vdata r \<noteq> Some q" using c(7) by auto
        then show "heapAt h'' q = heapAt h q" using h''(3) c(8) q by simp
      qed
      from elems_frame_allocated(1)[OF assms(2) this] c(5) have "vectorElems h'' v = Inr es"
        by simp
      then show ?thesis using h''(1,2) by blast
    qed
    moreover have "copyToExecutor A v (vexec v) h = Inr (r, h')"
      using c(1) by (simp add: copyToExecutor_def)
    ultimately show ?thesis using c(2,3,5,6,7) v' by blast
  qed
qed

theorem copyToExecutor_same_executor_witness:
  "\<exists>r h' h''. copyToExecutor bumpAllocator \<lparr>vsize = 2, vdata = Some 0, vexec = SerialExecutor\<rparr>
                 SerialExecutor [Some [1, 2], Some [3, 4]] = Inr (r, h')
      \<and> vectorElems h' r = Inr [1, 2]
      \<and> viewStore r 1 9 h' = Inr h''
      \<and> vectorElems h'' r = Inr [1, 9]
      \<and> vectorElems h'' \<lparr>vsize = 2, vdata = Some 0, vexec = SerialExecutor\<rparr> = Inr [1, 2]"
proof -
  let ?v = "\<lparr>vsize = 2, vdata = Some 0, vexec = SerialExecutor\<rparr>"
  let ?h = "[Some [1, 2], Some [3, 4]]"
  have ea: "vectorElems ?h ?v = Inr [1, 2]"
    by (simp add: vectorElems_def heapAt_def)
  from copyToExecutor_same_executor[OF bumpAllocator_fresh two_vectors_valid(1)]
  show ?thesis
  proof
    assume "copyToExecutor bumpAllocator ?v (vexec ?v) ?h = Inl AllocationFailure"
    then show ?thesis using copyToExecutor_example by simp
  next
    assume "\<exists>r h' es. copyToExecutor bumpAllocator ?v (vexec ?v) ?h = Inr (r, h')
             \<and> vsize r = vsize ?v \<and> vexec r = vexec ?v
             \<and> vectorElems ?h ?v = Inr es \<and> vectorElems h' ?v = Inr es
             \<and> vectorElems h' r = Inr es
             \<and> (\<forall>p. vdata r = Some p \<longrightarrow> heapAt ?h p = None)
             \<and> (\<forall>i x. i < vsize r \<longrightarrow>
                   (\<exists>h''. viewStore r i x h' = Inr h''
                      \<and> vectorElems h'' r = Inr (es[i := x])
                      \<and> vectorElems h'' ?v = Inr es))"
    then obtain r h' es where
      c: "copyToExecutor bumpAllocator ?v (vexec ?v) ?h = Inr (r, h')"
         "vsize r = vsize ?v" "vectorElems ?h ?v = Inr es" "vectorElems h' r = Inr es"
         "\<forall>i x. i < vsize r \<longrightarrow>
                   (\<exists>h''. viewStore r i x h' = Inr h''
                      \<and> vectorElems h'' r = Inr (es[i := x])
                      \<and> vectorElems h'' ?v = Inr es)" by blast
    from c(3) ea have es: "es = [1, 2]" by simp
    have "(1::nat) < vsize r" using c(2) by simp
    with c(5) obtain h'' where "viewStore r 1 9 h' = Inr h''"
      "vectorElems h'' r = Inr (es[1 := 9])" "vectorElems h'' ?v = Inr es" by blast
    then show ?thesis using c(1,4) es by auto
  qed
qed



text \<open>
  C9. The claim: in implicit divergence assembly every write to a shared matrix or
  right-hand-side slot, the boundary-face diagonal and right-hand-side updates included,
  is atomic, so that concurrent faces of one cell never lose an update. The boundary
  kernel of \<^verbatim>\<open>computeDivImp\<close> updates both slots with a plain compound assignment (a
  load and a store, the first conjunct below). On the
  cell with two boundary faces of flux \<open>2\<close> and \<open>4\<close> (blend fraction \<open>1/2\<close>, reference
  value \<open>2\<close>) the sequential executor assembles the diagonal \<open>3\<close> and the right-hand
  side \<open>-6\<close>; on the host-parallel executor, under the schedule that lets both faces
  read a slot before either writes it, the update of the first face is lost twice and
  the call returns the diagonal \<open>2\<close> and the right-hand side \<open>-4\<close>.
\<close>

theorem computeDivImp_boundary_lost_update:
  "divImpBoundaryOps 0 [2, 4] [0, 0] [0, 1] (CoeffUniform 1) [0] [1/2, 1/2] [2, 2] 0
   = Some [Load (MatrixValue 0), StoreAdd (MatrixValue 0) 1,
           Load (RhsEntry 0), StoreSub (RhsEntry 0) 2]
   \<and> computeDivImp ([], []) emptySingleCellSystem [2, 4] (singleCellField SerialExecutor)
     (CoeffUniform 1) singleCellPattern
   = Some \<lparr>matrix_values = [3], matrix_rowOffs = [0, 1], ls_rhs = [- 6]\<rparr>
   \<and> computeDivImp ([], [0, 1, 0, 1, 0, 1, 0, 1]) emptySingleCellSystem [2, 4]
       (singleCellField CPUExecutor) (CoeffUniform 1) singleCellPattern
   = Some \<lparr>matrix_values = [2], matrix_rowOffs = [0, 1], ls_rhs = [- 4]\<rparr>"
proof (intro conjI)
  show "divImpBoundaryOps 0 [2, 4] [0, 0] [0, 1] (CoeffUniform 1) [0] [1/2, 1/2] [2, 2] 0
   = Some [Load (MatrixValue 0), StoreAdd (MatrixValue 0) 1,
           Load (RhsEntry 0), StoreSub (RhsEntry 0) 2]"
    by (simp add: divImpBoundaryOps_def viewAt_def localIdxAdd_def)
  show "computeDivImp ([], []) emptySingleCellSystem [2, 4] (singleCellField SerialExecutor)
     (CoeffUniform 1) singleCellPattern
   = Some \<lparr>matrix_values = [3], matrix_rowOffs = [0, 1], ls_rhs = [- 6]\<rparr>"
    by (simp add: computeDivImp_def emptySingleCellSystem_def singleCellField_def
        singleCellMesh_def singleCellPattern_def parallelFor_def forLoop.simps runKernel_def
        divImpBoundaryOps_def viewAt_def viewPoke_def localIdxAdd_def)
  show "computeDivImp ([], [0, 1, 0, 1, 0, 1, 0, 1]) emptySingleCellSystem [2, 4]
       (singleCellField CPUExecutor) (CoeffUniform 1) singleCellPattern
   = Some \<lparr>matrix_values = [2], matrix_rowOffs = [0, 1], ls_rhs = [- 4]\<rparr>"
    by (simp add: computeDivImp_def emptySingleCellSystem_def singleCellField_def
        singleCellMesh_def singleCellPattern_def parallelFor_def runSchedule.simps enabled_def
        pick_def upt_0_2 divImpBoundaryOps_def viewAt_def viewPoke_def localIdxAdd_def)
qed

text \<open>
  C10. The products \<open>a * s\<close> by a scalar and \<open>a * b\<close> by a vector of the same size on the
  same executor: unless the allocation fails, the call returns a vector in a block that was
  not allocated before the call, holding the elementwise products, and \<open>a\<close> and \<open>b\<close>
  (and every other block allocated before the call) read as before.
\<close>

theorem times_leaves_operands:
  assumes "allocFresh A" and "vectorValid h a" and "vectorValid h b"
    and "vsize b = vsize a" and "vexec b = vexec a"
  shows "(timesScalar A a s h = Inl AllocationFailure
          \<or> (\<exists>r h' es. timesScalar A a s h = Inr (r, h')
                \<and> vectorElems h a = Inr es \<and> vectorElems h' a = Inr es
                \<and> vectorElems h' r = Inr (map (\<lambda>x. x * s) es)
                \<and> vsize r = vsize a \<and> vexec r = vexec a
                \<and> (\<forall>p. vdata r = Some p \<longrightarrow> heapAt h p = None)
                \<and> (\<forall>q. heapAt h q \<noteq> None \<longrightarrow> heapAt h' q = heapAt h q)))
       \<and> (timesVector A dbg a b h = Inl AllocationFailure
          \<or> (\<exists>r h' es bs. timesVector A dbg a b h = Inr (r, h')
                \<and> vectorElems h a = Inr es \<and> vectorElems h' a = Inr es
                \<and> vectorElems h b = Inr bs \<and> vectorElems h' b = Inr bs
                \<and> vectorElems h' r = Inr (map2 (\<lambda>x y. x * y) es bs)
                \<and> vsize r = vsize a \<and> vexec r = vexec a
                \<and> (\<forall>p. vdata r = Some p \<longrightarrow> heapAt h p = None)
                \<and> (\<forall>q. heapAt h q \<noteq> None \<longrightarrow> heapAt h' q = heapAt h q)))"
  using timesScalar_effect[OF assms(1,2)] timesVector_effect[OF assms] by blast

theorem times_leaves_operands_witness:
  "(\<exists>r h'. timesScalar bumpAllocator \<lparr>vsize = 2, vdata = Some 0, vexec = SerialExecutor\<rparr> 10
              [Some [1, 2], Some [3, 4]] = Inr (r, h')
          \<and> vectorElems h' \<lparr>vsize = 2, vdata = Some 0, vexec = SerialExecutor\<rparr> = Inr [1, 2]
          \<and> vectorElems h' r = Inr [10, 20])
   \<and> (\<exists>r h'. timesVector bumpAllocator False
              \<lparr>vsize = 2, vdata = Some 0, vexec = SerialExecutor\<rparr>
              \<lparr>vsize = 2, vdata = Some 1, vexec = SerialExecutor\<rparr>
              [Some [1, 2], Some [3, 4]] = Inr (r, h')
          \<and> vectorElems h' \<lparr>vsize = 2, vdata = Some 0, vexec = SerialExecutor\<rparr> = Inr [1, 2]
          \<and> vectorElems h' \<lparr>vsize = 2, vdata = Some 1, vexec = SerialExecutor\<rparr> = Inr [3, 4]
          \<and> vectorElems h' r = Inr [3, 8])"
proof -
  have ea: "vectorElems [Some [1, 2], Some [3, 4]]
              \<lparr>vsize = 2, vdata = Some 0, vexec = SerialExecutor\<rparr> = Inr [1, 2]"
    and eb: "vectorElems [Some [1, 2], Some [3, 4]]
              \<lparr>vsize = 2, vdata = Some 1, vexec = SerialExecutor\<rparr> = Inr [3, 4]"
    by (simp_all add: vectorElems_def heapAt_def)
  from times_leaves_operands[OF bumpAllocator_fresh two_vectors_valid, of 10 False]
  show ?thesis
    unfolding timesScalar_example timesVector_example ea eb by simp
qed

end
